theory Spec2Isabelle
  imports Complex_Main "HOL-Library.Log_Nat" "HOL-Library.Sublist"
begin

section \<open>Python values used by the TAXism backend\<close>

subsection \<open>Floats\<close>

text \<open>
  A Python \<open>float\<close> is an IEEE-754 binary64 number. A finite one is kept as the rational
  number it denotes, the two infinities and the NaN are constructors of their own.
  The two zeros \<open>0.0\<close> and \<open>-0.0\<close> compare equal in Python and are one value here.
\<close>

datatype pyfloat = Fin rat | PInf | NInf | NaN

text \<open>Rounding a rational to the nearest integer, ties to the even one.\<close>

definition round_half_even :: "rat \<Rightarrow> int" where
  "round_half_even x =
     (let f = \<lfloor>x\<rfloor>; d = x - of_int f
      in if d < 1 / 2 then f
         else if 1 / 2 < d then f + 1
         else if even f then f else f + 1)"

text \<open>The binary exponent of a positive rational: the \<open>e\<close> with \<open>2^e \<le> a < 2^(e+1)\<close>.\<close>

definition ilog2 :: "rat \<Rightarrow> int" where
  "ilog2 a =
     (let e0 = (if 1 \<le> a then bitlen \<lfloor>a\<rfloor> - 1 else 1 - bitlen \<lfloor>1 / a\<rfloor>)
      in if 2 powi e0 \<le> a then e0 else e0 - 1)"

text \<open>
  The result of an arithmetic operation whose exact value is \<open>x\<close>: the nearest binary64
  number (53 significant bits, least exponent \<open>-1022\<close>, gradual underflow), ties to the
  even significand, and an infinity from \<open>2^1024\<close> on.
\<close>

definition fl :: "rat \<Rightarrow> pyfloat" where
  "fl x =
     (if x = 0 then Fin 0
      else let e = max (ilog2 \<bar>x\<bar>) (- 1022);
               u = 2 powi (e - 52);
               y = of_int (round_half_even (x / u)) * u
           in if 2 powi 1024 \<le> y then PInf
              else if y \<le> - (2 powi 1024) then NInf
              else Fin y)"

fun fneg :: "pyfloat \<Rightarrow> pyfloat" where
  "fneg (Fin x) = Fin (- x)"
| "fneg PInf = NInf"
| "fneg NInf = PInf"
| "fneg NaN = NaN"

fun fabs :: "pyfloat \<Rightarrow> pyfloat" where
  "fabs (Fin x) = Fin \<bar>x\<bar>"
| "fabs PInf = PInf"
| "fabs NInf = PInf"
| "fabs NaN = NaN"

fun fadd :: "pyfloat \<Rightarrow> pyfloat \<Rightarrow> pyfloat" where
  "fadd NaN _ = NaN"
| "fadd _ NaN = NaN"
| "fadd PInf NInf = NaN"
| "fadd NInf PInf = NaN"
| "fadd PInf _ = PInf"
| "fadd _ PInf = PInf"
| "fadd NInf _ = NInf"
| "fadd _ NInf = NInf"
| "fadd (Fin x) (Fin y) = fl (x + y)"

definition fsub :: "pyfloat \<Rightarrow> pyfloat \<Rightarrow> pyfloat" where
  "fsub a b = fadd a (fneg b)"

text \<open>The sign of a float that is not a NaN, as \<open>-1\<close>, \<open>0\<close> or \<open>1\<close>.\<close>

fun fsgn :: "pyfloat \<Rightarrow> int" where
  "fsgn (Fin x) = (if x < 0 then - 1 else if x = 0 then 0 else 1)"
| "fsgn PInf = 1"
| "fsgn NInf = - 1"
| "fsgn NaN = 0"

fun fmul :: "pyfloat \<Rightarrow> pyfloat \<Rightarrow> pyfloat" where
  "fmul NaN _ = NaN"
| "fmul _ NaN = NaN"
| "fmul (Fin x) (Fin y) = fl (x * y)"
| "fmul a b =
     (let s = fsgn a * fsgn b
      in if s = 0 then NaN else if 0 < s then PInf else NInf)"

text \<open>Comparisons; every comparison with a NaN is false.\<close>

fun flt :: "pyfloat \<Rightarrow> pyfloat \<Rightarrow> bool" where
  "flt NaN _ = False"
| "flt _ NaN = False"
| "flt (Fin x) (Fin y) = (x < y)"
| "flt NInf b = (b \<noteq> NInf)"
| "flt a PInf = (a \<noteq> PInf)"
| "flt _ _ = False"

fun fge :: "pyfloat \<Rightarrow> pyfloat \<Rightarrow> bool" where
  "fge NaN _ = False"
| "fge _ NaN = False"
| "fge a b = (\<not> flt a b)"

subsection \<open>Errors\<close>

text \<open>
  The exceptions the handlers can raise. A pydantic \<open>ValidationError\<close> carries one entry
  per rejected field: the field's name and the name of the violated constraint.
\<close>

datatype error =
    ValidationError "(string \<times> string) list"
  | TypeError
  | ValueError
  | OverflowError
  | ZeroDivisionError

text \<open>\<open>float(n)\<close> of an \<open>int\<close>: the nearest float, or OverflowError when there is none.\<close>

definition float_of_int :: "int \<Rightarrow> error + pyfloat" where
  "float_of_int n = (case fl (of_int n) of Fin y \<Rightarrow> Inr (Fin y) | _ \<Rightarrow> Inl OverflowError)"

text \<open>True division of two floats; a zero divisor raises.\<close>

fun fdiv :: "pyfloat \<Rightarrow> pyfloat \<Rightarrow> error + pyfloat" where
  "fdiv a (Fin y) =
     (if y = 0 then Inl ZeroDivisionError
      else case a of
             Fin x \<Rightarrow> Inr (fl (x / y))
           | NaN \<Rightarrow> Inr NaN
           | _ \<Rightarrow> Inr (if 0 < fsgn a * fsgn (Fin y) then PInf else NInf))"
| "fdiv a NaN = Inr NaN"
| "fdiv (Fin x) _ = Inr (Fin 0)"
| "fdiv NaN _ = Inr NaN"
| "fdiv _ _ = Inr NaN"

text \<open>\<open>a / n\<close> for a float \<open>a\<close> and an int \<open>n\<close>: the int is converted first.\<close>

definition truediv_float_int :: "pyfloat \<Rightarrow> int \<Rightarrow> error + pyfloat" where
  "truediv_float_int a n =
     (case float_of_int n of Inl e \<Rightarrow> Inl e | Inr d \<Rightarrow> fdiv a d)"

text \<open>
  \<open>round(x, 2)\<close>: the exact value of \<open>x\<close> is rounded to two decimals, ties to the even
  digit, and the decimal obtained is converted to the nearest float. Infinities and NaN
  round to themselves. (CPython raises OverflowError when the decimal is beyond the
  floats; with two digits no float gets there, a float from \<open>2^53\<close> on being an integer.)
\<close>

fun round2 :: "pyfloat \<Rightarrow> pyfloat" where
  "round2 (Fin x) = fl (of_int (round_half_even (x * 100)) / 100)"
| "round2 a = a"

subsection \<open>Strings and JSON values\<close>

text \<open>
  A \<open>str\<close> is kept as its UTF-8 bytes. \<open>str.lower\<close> is modelled on the ASCII letters and
  leaves every other byte as it is; the categories it is compared with are ASCII words.
\<close>

definition lower_char :: "char \<Rightarrow> char" where
  "lower_char c =
     (let n = (of_char c :: nat) in if 65 \<le> n \<and> n \<le> 90 then char_of (n + 32) else c)"

definition lower :: "string \<Rightarrow> string" where
  "lower s = map lower_char s"

text \<open>A value decoded from a JSON body; \<open>JNull\<close> is Python's \<open>None\<close>.\<close>

datatype json =
    JNull
  | JBool bool
  | JInt int
  | JFloat pyfloat
  | JStr string
  | JList "json list"
  | JObj "(string \<times> json) list"

type_synonym pydict = "string \<Rightarrow> json option"

text \<open>\<open>d.get(k, default)\<close>.\<close>

definition dict_get :: "pydict \<Rightarrow> string \<Rightarrow> json \<Rightarrow> json" where
  "dict_get d k dflt = (case d k of None \<Rightarrow> dflt | Some v \<Rightarrow> v)"

text \<open>
  \<open>float(v)\<close>. The reading of a numeric string is the parameter \<open>parse\<close> (\<open>None\<close> where
  Python raises ValueError); what is no number, bool or string raises TypeError.
\<close>

fun py_float :: "(string \<Rightarrow> pyfloat option) \<Rightarrow> json \<Rightarrow> error + pyfloat" where
  "py_float parse (JFloat f) = Inr f"
| "py_float parse (JInt n) = float_of_int n"
| "py_float parse (JBool b) = Inr (Fin (if b then 1 else 0))"
| "py_float parse (JStr s) = (case parse s of None \<Rightarrow> Inl ValueError | Some f \<Rightarrow> Inr f)"
| "py_float parse _ = Inl TypeError"

section \<open>Request and record models\<close>

datatype date = Date int int int

record DepreciationInput =
  asset_name :: string
  cost_basis :: pyfloat
  placed_in_service :: date
  life_years :: int

record schedule_entry =
  year :: int
  amount :: pyfloat

record DepreciationRecord =
  rec_asset_name :: string
  rec_cost_basis :: pyfloat
  rec_placed_in_service :: date
  rec_method :: string
  rec_life_years :: int
  schedule :: "schedule_entry list"

record HarvestInput =
  portfolio_name :: string
  positions :: "pydict list"
  threshold :: pyfloat

record candidate =
  symbol :: json
  unrealized :: pyfloat
  note' :: string

record HarvestPlan =
  plan_portfolio_name :: string
  plan_threshold :: pyfloat
  positions_reviewed :: int
  candidates :: "candidate list"

record MemoInput =
  title :: string
  position_summary :: string

record Memo =
  memo_title :: string
  memo_position_summary :: string
  citations :: "string list"
  memo_text :: string

record ExpenseInput =
  category :: string
  expense_amount :: pyfloat

record flag =
  flag_category :: string
  hint :: string

record writeoff_result =
  total_reviewed :: pyfloat
  flags :: "flag list"

subsection \<open>Field constraints\<close>

text \<open>
  The constraints of the pydantic fields. A model is built from its fields or a
  ValidationError lists every field that breaks a constraint, in the order of the fields.
  A bound on a float is a comparison of floats, so a NaN meets no bound.
\<close>

definition check_ge_float :: "string \<Rightarrow> pyfloat \<Rightarrow> pyfloat \<Rightarrow> (string \<times> string) list" where
  "check_ge_float field v bound =
     (if fge v bound then [] else [(field, ''greater_than_equal'')])"

definition check_range_int :: "string \<Rightarrow> int \<Rightarrow> int \<Rightarrow> int \<Rightarrow> (string \<times> string) list" where
  "check_range_int field v lo hi =
     (if \<not> v \<le> hi then [(field, ''less_than_equal'')]
      else if \<not> lo \<le> v then [(field, ''greater_than_equal'')]
      else [])"

definition check_ge_int :: "string \<Rightarrow> int \<Rightarrow> int \<Rightarrow> (string \<times> string) list" where
  "check_ge_int field v lo = (if lo \<le> v then [] else [(field, ''greater_than_equal'')])"

definition check_literal :: "string \<Rightarrow> string \<Rightarrow> string \<Rightarrow> (string \<times> string) list" where
  "check_literal field v lit = (if v = lit then [] else [(field, ''literal_error'')])"

definition validated :: "(string \<times> string) list \<Rightarrow> 'a \<Rightarrow> error + 'a" where
  "validated errs r = (if errs = [] then Inr r else Inl (ValidationError errs))"

definition make_DepreciationInput ::
  "string \<Rightarrow> pyfloat \<Rightarrow> date \<Rightarrow> int \<Rightarrow> error + DepreciationInput" where
  "make_DepreciationInput an cb pis ly =
     validated (check_ge_float ''cost_basis'' cb (Fin 0) @ check_range_int ''life_years'' ly 1 40)
       \<lparr>asset_name = an, cost_basis = cb, placed_in_service = pis, life_years = ly\<rparr>"

definition make_DepreciationRecord ::
  "string \<Rightarrow> pyfloat \<Rightarrow> date \<Rightarrow> string \<Rightarrow> int \<Rightarrow> schedule_entry list \<Rightarrow> error + DepreciationRecord" where
  "make_DepreciationRecord an cb pis m ly sch =
     validated (check_ge_float ''cost_basis'' cb (Fin 0) @ check_literal ''method'' m ''SL''
                @ check_range_int ''life_years'' ly 1 40)
       \<lparr>rec_asset_name = an, rec_cost_basis = cb, rec_placed_in_service = pis, rec_method = m,
        rec_life_years = ly, schedule = sch\<rparr>"

definition make_HarvestInput ::
  "string \<Rightarrow> pydict list \<Rightarrow> pyfloat option \<Rightarrow> error + HarvestInput" where
  \<comment> \<open>a request without a threshold gets the default 500.0\<close>
  "make_HarvestInput pn ps t =
     validated []
       \<lparr>portfolio_name = pn, positions = ps,
        threshold = (case t of None \<Rightarrow> Fin 500 | Some v \<Rightarrow> v)\<rparr>"

definition make_HarvestPlan ::
  "string \<Rightarrow> pyfloat \<Rightarrow> int \<Rightarrow> candidate list \<Rightarrow> error + HarvestPlan" where
  "make_HarvestPlan pn t n cs =
     validated (check_ge_float ''threshold'' t (Fin 0) @ check_ge_int ''positions_reviewed'' n 0)
       \<lparr>plan_portfolio_name = pn, plan_threshold = t, positions_reviewed = n, candidates = cs\<rparr>"

definition make_MemoInput :: "string \<Rightarrow> string \<Rightarrow> error + MemoInput" where
  "make_MemoInput t s = validated [] \<lparr>title = t, position_summary = s\<rparr>"

definition make_Memo :: "string \<Rightarrow> string \<Rightarrow> string list \<Rightarrow> string \<Rightarrow> error + Memo" where
  "make_Memo t s cs txt =
     validated [] \<lparr>memo_title = t, memo_position_summary = s, citations = cs, memo_text = txt\<rparr>"

section \<open>The calculators\<close>

subsection \<open>Straight-line depreciation\<close>

text \<open>\<open>range(n)\<close>.\<close>

definition range_py :: "int \<Rightarrow> int list" where
  "range_py n = [0..n - 1]"

text \<open>The loop of \<open>calculate_depreciation\<close>: one entry is appended for every year.\<close>

fun schedule_loop :: "pyfloat \<Rightarrow> int list \<Rightarrow> schedule_entry list \<Rightarrow> schedule_entry list" where
  "schedule_loop annual [] sch = sch"
| "schedule_loop annual (y # ys) sch =
     schedule_loop annual ys (sch @ [\<lparr>year = y + 1, amount = annual\<rparr>])"

definition calculate_depreciation :: "DepreciationInput \<Rightarrow> error + DepreciationRecord" where
  "calculate_depreciation payload =
     (case truediv_float_int (cost_basis payload) (life_years payload) of
        Inl e \<Rightarrow> Inl e
      | Inr q \<Rightarrow>
          let annual = round2 q;
              sch = schedule_loop annual (range_py (life_years payload)) []
          in make_DepreciationRecord (asset_name payload) (cost_basis payload)
               (placed_in_service payload) ''SL'' (life_years payload) sch)"

text \<open>The endpoint: the body is validated into a \<open>DepreciationInput\<close>, then handled.\<close>

definition depreciation_calc :: "string \<Rightarrow> pyfloat \<Rightarrow> date \<Rightarrow> int \<Rightarrow> error + DepreciationRecord" where
  "depreciation_calc an cb pis ly =
     (case make_DepreciationInput an cb pis ly of
        Inl e \<Rightarrow> Inl e
      | Inr payload \<Rightarrow> calculate_depreciation payload)"

subsection \<open>Tax-loss harvest scan\<close>

definition wash_sale_note :: string where
  "wash_sale_note = ''Loss exceeds threshold. Confirm wash sale windows before execution.''"

text \<open>The three conversions and the rounded product of one position.\<close>

definition position_unrealized :: "(string \<Rightarrow> pyfloat option) \<Rightarrow> pydict \<Rightarrow> error + pyfloat" where
  "position_unrealized parse p =
     (case py_float parse (dict_get p ''cost_basis'' (JInt 0)) of
        Inl e \<Rightarrow> Inl e
      | Inr cb \<Rightarrow>
     (case py_float parse (dict_get p ''current_price'' (JInt 0)) of
        Inl e \<Rightarrow> Inl e
      | Inr cp \<Rightarrow>
     (case py_float parse (dict_get p ''quantity'' (JInt 0)) of
        Inl e \<Rightarrow> Inl e
      | Inr qty \<Rightarrow> Inr (round2 (fmul (fsub cp cb) qty)))))"

text \<open>The loop of \<open>scan_tax_loss_harvest\<close>; an exception of a conversion ends it.\<close>

fun scan_loop ::
  "(string \<Rightarrow> pyfloat option) \<Rightarrow> pyfloat \<Rightarrow> pydict list \<Rightarrow> candidate list \<Rightarrow> error + candidate list" where
  "scan_loop parse t [] cands = Inr cands"
| "scan_loop parse t (p # ps) cands =
     (case position_unrealized parse p of
        Inl e \<Rightarrow> Inl e
      | Inr u \<Rightarrow>
          if flt u (fneg (fabs t))
          then scan_loop parse t ps
                 (cands @ [\<lparr>symbol = dict_get p ''symbol'' JNull, unrealized = u,
                             note' = wash_sale_note\<rparr>])
          else scan_loop parse t ps cands)"

definition scan_tax_loss_harvest ::
  "(string \<Rightarrow> pyfloat option) \<Rightarrow> HarvestInput \<Rightarrow> error + HarvestPlan" where
  "scan_tax_loss_harvest parse payload =
     (case scan_loop parse (threshold payload) (positions payload) [] of
        Inl e \<Rightarrow> Inl e
      | Inr cands \<Rightarrow>
          make_HarvestPlan (portfolio_name payload) (threshold payload)
            (int (length (positions payload))) cands)"

definition harvest_scan ::
  "(string \<Rightarrow> pyfloat option) \<Rightarrow> string \<Rightarrow> pydict list \<Rightarrow> pyfloat option \<Rightarrow>
     error + HarvestPlan" where
  "harvest_scan parse pn ps t =
     (case make_HarvestInput pn ps t of
        Inl e \<Rightarrow> Inl e
      | Inr payload \<Rightarrow> scan_tax_loss_harvest parse payload)"

subsection \<open>Defense memo\<close>

definition nl :: string where
  "nl = [CHR 0x0A]"

definition render_memo_text :: "string \<Rightarrow> string \<Rightarrow> string" where
  "render_memo_text t s =
     ''Position: '' @ t @ nl @ nl @
     ''Summary: '' @ s @ nl @ nl @
     ''Rationale: This position is taken based on commonly accepted interpretations '' @
     ''of applicable tax rules and administrative guidance. The taxpayer has a good-'' @
     ''faith basis and has maintained contemporaneous records.'' @ nl @ nl @
     ''Citations: [Add statute/reg cite placeholders here].'' @ nl @ nl @
     ''Disclosure: Where required, the position will be properly disclosed to the tax authority.''"

definition generate_defense_memo :: "MemoInput \<Rightarrow> error + Memo" where
  "generate_defense_memo payload =
     make_Memo (title payload) (position_summary payload) []
       (render_memo_text (title payload) (position_summary payload))"

definition memo_generate :: "string \<Rightarrow> string \<Rightarrow> error + Memo" where
  "memo_generate t s =
     (case make_MemoInput t s of
        Inl e \<Rightarrow> Inl e
      | Inr payload \<Rightarrow> generate_defense_memo payload)"

subsection \<open>Write-off flags\<close>

definition writeoff_categories :: "string list" where
  "writeoff_categories = [''home office'', ''r&d'', ''depreciation'', ''mileage'']"

text \<open>The hint holds an en dash, three bytes in UTF-8.\<close>

definition writeoff_hint :: string where
  "writeoff_hint =
     ''Potential deduction '' @ [CHR 0xE2, CHR 0x80, CHR 0x93] @ '' ensure substantiation.''"

text \<open>The loop of \<open>writeoff_flags\<close>, on the pair of the flags and the running total.\<close>

fun writeoff_loop :: "ExpenseInput list \<Rightarrow> flag list \<Rightarrow> pyfloat \<Rightarrow> flag list \<times> pyfloat" where
  "writeoff_loop [] fs tot = (fs, tot)"
| "writeoff_loop (e # es) fs tot =
     (let tot' = fadd tot (expense_amount e)
      in if lower (category e) \<in> set writeoff_categories
         then writeoff_loop es (fs @ [\<lparr>flag_category = category e, hint = writeoff_hint\<rparr>]) tot'
         else writeoff_loop es fs tot')"

definition writeoff_flags :: "ExpenseInput list \<Rightarrow> writeoff_result" where
  "writeoff_flags expenses =
     (case writeoff_loop expenses [] (Fin 0) of
        (fs, tot) \<Rightarrow> \<lparr>total_reviewed = round2 tot, flags = fs\<rparr>)"

section \<open>Notions used in the statements\<close>

text \<open>The exponent and the unit in the last place that \<open>fl\<close> uses, and the largest float.\<close>

definition fexp :: "rat \<Rightarrow> int" where
  "fexp x = max (ilog2 \<bar>x\<bar>) (- 1022)"

definition ulp :: "rat \<Rightarrow> rat" where
  "ulp x = 2 powi (fexp x - 52)"

definition max_float :: rat where
  "max_float = 2 ^ 1024 - 2 ^ 971"

text \<open>The sum of the amounts, from left to right, and equality of strings up to case.\<close>

definition float_sum :: "pyfloat list \<Rightarrow> pyfloat" where
  "float_sum xs = foldl fadd (Fin 0) xs"

definition equal_ignoring_case :: "string \<Rightarrow> string \<Rightarrow> bool" where
  "equal_ignoring_case a b = (lower a = lower b)"

definition flagged :: "ExpenseInput \<Rightarrow> bool" where
  "flagged e = (\<exists>k \<in> set writeoff_categories. equal_ignoring_case (category e) k)"

text \<open>
  A position is a candidate when its rounded unrealized amount is below the negated
  threshold; a candidate records the position's symbol, that amount and the advisory note.
\<close>

definition is_candidate :: "(string \<Rightarrow> pyfloat option) \<Rightarrow> pyfloat \<Rightarrow> pydict \<Rightarrow> bool" where
  "is_candidate parse t p =
     (case position_unrealized parse p of Inl _ \<Rightarrow> False | Inr u \<Rightarrow> flt u (fneg t))"

definition candidate_entry :: "(string \<Rightarrow> pyfloat option) \<Rightarrow> pydict \<Rightarrow> candidate" where
  "candidate_entry parse p =
     \<lparr>symbol = dict_get p ''symbol'' JNull,
      unrealized = (case position_unrealized parse p of Inl _ \<Rightarrow> NaN | Inr u \<Rightarrow> u),
      note' = wash_sale_note\<rparr>"

text \<open>
  The numeric fields of a position, and a position whose three conversions succeed.
\<close>

definition numeric_fields :: "string list" where
  "numeric_fields = [''cost_basis'', ''current_price'', ''quantity'']"

definition convertible :: "(string \<Rightarrow> pyfloat option) \<Rightarrow> pydict \<Rightarrow> bool" where
  "convertible parse p = (case position_unrealized parse p of Inl _ \<Rightarrow> False | Inr _ \<Rightarrow> True)"

text \<open>
  The specification's words for the harvest scanner. The value of a numeric field is the
  float of the field, and 0 for a missing field. The unrealized amount of a position is
  \<open>round((current_price - cost_basis) * quantity, 2)\<close> on these values. A position is a
  candidate when that rounded amount is below \<open>-T\<close>, and its entry carries the symbol, the
  rounded amount and the advisory note.
\<close>

definition numeric_value ::
  "(string \<Rightarrow> pyfloat option) \<Rightarrow> pydict \<Rightarrow> string \<Rightarrow> error + pyfloat" where
  "numeric_value parse p k = (case p k of None \<Rightarrow> Inr (Fin 0) | Some v \<Rightarrow> py_float parse v)"

definition rounded_unrealized :: "(string \<Rightarrow> pyfloat option) \<Rightarrow> pydict \<Rightarrow> pyfloat option" where
  "rounded_unrealized parse p =
     (case numeric_value parse p ''cost_basis'' of
        Inl _ \<Rightarrow> None
      | Inr cb \<Rightarrow>
     (case numeric_value parse p ''current_price'' of
        Inl _ \<Rightarrow> None
      | Inr cp \<Rightarrow>
     (case numeric_value parse p ''quantity'' of
        Inl _ \<Rightarrow> None
      | Inr qty \<Rightarrow> Some (round2 (fmul (fsub cp cb) qty)))))"

definition loss_candidate ::
  "(string \<Rightarrow> pyfloat option) \<Rightarrow> pyfloat \<Rightarrow> pydict \<Rightarrow> candidate option" where
  "loss_candidate parse t p =
     (case rounded_unrealized parse p of
        None \<Rightarrow> None
      | Some u \<Rightarrow>
          if flt u (fneg t)
          then Some \<lparr>symbol = dict_get p ''symbol'' JNull, unrealized = u, note' = wash_sale_note\<rparr>
          else None)"

text \<open>A position whose numeric fields are each absent or a value that \<open>float\<close> accepts.\<close>

definition numbers_or_absent :: "(string \<Rightarrow> pyfloat option) \<Rightarrow> pydict \<Rightarrow> bool" where
  "numbers_or_absent parse p =
     list_all (\<lambda>k. case numeric_value parse p k of Inl _ \<Rightarrow> False | Inr _ \<Rightarrow> True)
       numeric_fields"

section \<open>Properties of the float operations\<close>

lemma rhe_of_int: "round_half_even (of_int k) = k"
  by (simp add: round_half_even_def)

lemma rhe_err: "\<bar>of_int (round_half_even x) - x\<bar> \<le> 1 / 2"
  unfolding round_half_even_def Let_def
  by (auto simp: abs_if not_less) linarith+

lemma ilog2_ge1:
  assumes "1 \<le> a"
  shows "2 powi (ilog2 a) \<le> a \<and> a < 2 powi (ilog2 a + 1)"
proof -
  let ?n = "\<lfloor>a\<rfloor>"
  have n: "0 < ?n" using assms by simp
  from bitlen_bounds[OF n] have b1: "2 ^ nat (bitlen ?n - 1) \<le> ?n" and b2: "?n < 2 ^ nat (bitlen ?n)" by auto
  have bl: "1 \<le> bitlen ?n" using n bitlen_eq_zero_iff[of ?n] bitlen_nonneg[of ?n] by linarith
  have lo: "(2::rat) powi (bitlen ?n - 1) \<le> a"
  proof -
    have "(2::rat) powi (bitlen ?n - 1) = 2 ^ nat (bitlen ?n - 1)" using bl by (simp add: power_int_def)
    also have "\<dots> = of_int (2 ^ nat (bitlen ?n - 1))" by simp
    also have "\<dots> \<le> of_int ?n" using b1 by (simp only: of_int_le_iff)
    also have "\<dots> \<le> a" by simp
    finally show ?thesis .
  qed
  have hi: "a < (2::rat) powi (bitlen ?n)"
  proof -
    have "?n + 1 \<le> 2 ^ nat (bitlen ?n)" using b2 by simp
    then have "(of_int (?n + 1) :: rat) \<le> of_int (2 ^ nat (bitlen ?n))" by (simp only: of_int_le_iff)
    moreover have "a < of_int (?n + 1)" by linarith
    moreover have "(2::rat) powi (bitlen ?n) = 2 ^ nat (bitlen ?n)" using bl by (simp add: power_int_def)
    ultimately show ?thesis by simp
  qed
  have "ilog2 a = bitlen ?n - 1" using assms lo by (simp add: ilog2_def)
  then show ?thesis using lo hi by simp
qed

lemma powi2_add1: "(2::rat) powi (k + 1) = 2 powi k * 2"
  by (subst power_int_add) simp_all

lemma ilog2_lt1:
  assumes "0 < a" "a < 1"
  shows "2 powi (ilog2 a) \<le> a \<and> a < 2 powi (ilog2 a + 1)"
proof -
  let ?b = "1 / a"
  let ?n = "\<lfloor>?b\<rfloor>"
  let ?t = "bitlen ?n - 1"
  have b: "1 < ?b" using assms by simp
  have n: "0 < ?n" using b by simp
  from bitlen_bounds[OF n] have b1: "2 ^ nat ?t \<le> ?n" and b2: "?n < 2 ^ nat (bitlen ?n)" by auto
  have bl: "1 \<le> bitlen ?n" using n bitlen_eq_zero_iff[of ?n] bitlen_nonneg[of ?n] by linarith
  have lo: "(2::rat) ^ nat ?t \<le> ?b"
  proof -
    have "(2::rat) ^ nat ?t = of_int (2 ^ nat ?t)" by simp
    also have "\<dots> \<le> of_int ?n" using b1 by (simp only: of_int_le_iff)
    also have "\<dots> \<le> ?b" by simp
    finally show ?thesis .
  qed
  have hi: "?b < (2::rat) ^ nat (bitlen ?n)"
  proof -
    have "?n + 1 \<le> 2 ^ nat (bitlen ?n)" using b2 by simp
    then have "(of_int (?n + 1) :: rat) \<le> of_int (2 ^ nat (bitlen ?n))" by (simp only: of_int_le_iff)
    moreover have "?b < of_int (?n + 1)" by linarith
    ultimately show ?thesis by simp
  qed
  have p0: "(2::rat) powi (1 - bitlen ?n) = 1 / 2 ^ nat ?t"
    using bl by (simp add: power_int_def field_simps nat_diff_distrib)
  have p1: "(2::rat) powi (1 - bitlen ?n - 1) = 1 / 2 ^ nat (bitlen ?n)"
    using bl by (simp add: power_int_def field_simps)
  have p2: "(2::rat) powi (1 - bitlen ?n + 1) = 2 / 2 ^ nat ?t"
  proof -
    have "(2::rat) powi (1 - bitlen ?n + 1) = 2 powi (1 - bitlen ?n) * 2"
      by (rule powi2_add1)
    then show ?thesis using p0 by simp
  qed
  have a_le: "a \<le> 1 / 2 ^ nat ?t"
    using lo assms(1) by (simp add: field_simps)
  have a_gt: "1 / 2 ^ nat (bitlen ?n) < a"
    using hi assms(1) by (simp add: field_simps)
  have e0: "ilog2 a = (if 1 / 2 ^ nat ?t \<le> a then 1 - bitlen ?n else 1 - bitlen ?n - 1)"
    using assms p0 by (simp add: ilog2_def)
  show ?thesis
  proof (cases "1 / 2 ^ nat ?t \<le> a")
    case True
    then have "ilog2 a = 1 - bitlen ?n" using e0 by simp
    moreover have "a < 2 / 2 ^ nat ?t"
    proof -
      have "(0::rat) < 1 / 2 ^ nat ?t" by simp
      then have "1 / 2 ^ nat ?t < 2 * (1 / (2::rat) ^ nat ?t)" by linarith
      then show ?thesis using a_le by simp
    qed
    ultimately show ?thesis using True p0 p2 by simp
  next
    case False
    then have e: "ilog2 a = 1 - bitlen ?n - 1" using e0 by simp
    have "a < 2 powi (1 - bitlen ?n - 1 + 1)" using False p0 by simp
    then show ?thesis using e a_gt p1 by simp
  qed
qed

lemma ilog2_bounds:
  assumes "0 < a"
  shows "2 powi (ilog2 a) \<le> a" and "a < 2 powi (ilog2 a + 1)"
  using assms ilog2_ge1[of a] ilog2_lt1[of a] by (cases "1 \<le> a"; simp)+

lemma powi2_mono: "a \<le> b \<Longrightarrow> (2::rat) powi a \<le> 2 powi b"
  by (rule power_int_increasing) simp_all

lemma powi2_strict_mono: "a < b \<Longrightarrow> (2::rat) powi a < 2 powi b"
  by (rule power_int_strict_increasing) simp_all

lemma powi2_less_cancel: "(2::rat) powi a < 2 powi b \<Longrightarrow> a < b"
  using powi2_mono[of b a] by (cases "a < b") simp_all

lemma powi2_pos: "(0::rat) < 2 powi a"
  by (simp add: power_int_def)

lemma fl_of_int:
  assumes "\<bar>n\<bar> < 2 ^ 53"
  shows "fl (of_int n) = Fin (of_int n)"
proof (cases "n = 0")
  case True
  then show ?thesis by (simp add: fl_def)
next
  case False
  let ?a = "\<bar>of_int n :: rat\<bar>"
  have "1 \<le> \<bar>n\<bar>" using False by simp
  then have "(of_int 1 :: rat) \<le> of_int \<bar>n\<bar>" by (simp only: of_int_le_iff)
  then have a1: "1 \<le> ?a" by simp
  have a0: "0 < ?a" using a1 by linarith
  have ahi: "?a < 2 powi 53"
  proof -
    have "(of_int \<bar>n\<bar> :: rat) < of_int (2 ^ 53)" using assms by (simp only: of_int_less_iff)
    then show ?thesis by simp
  qed
  let ?e = "ilog2 ?a"
  have "2 powi ?e \<le> ?a" using ilog2_bounds(1)[OF a0] .
  then have "(2::rat) powi ?e < 2 powi 53" using ahi by linarith
  then have e_hi: "?e < 53" by (rule powi2_less_cancel)
  have "(2::rat) powi 0 < 2 powi (?e + 1)" using ilog2_bounds(2)[OF a0] a1 by simp
  then have e_lo: "0 \<le> ?e" using powi2_less_cancel[of 0 "?e + 1"] by linarith
  have emax: "max ?e (- 1022) = ?e" using e_lo by simp
  let ?k = "nat (52 - ?e)"
  have u: "(2::rat) powi (?e - 52) = 1 / 2 ^ ?k"
    using e_hi by (simp add: power_int_def field_simps)
  have q: "of_int n / ((2::rat) powi (?e - 52)) = of_int (n * 2 ^ ?k)"
    by (simp add: u)
  have r: "round_half_even (of_int n / ((2::rat) powi (?e - 52))) = n * 2 ^ ?k"
    unfolding q by (rule rhe_of_int)
  have y: "of_int (n * 2 ^ ?k) * ((2::rat) powi (?e - 52)) = of_int n"
    by (simp add: u)
  have big: "(2::rat) powi 53 < 2 powi 1024" by (rule powi2_strict_mono) simp
  have lt: "(of_int n :: rat) < 2 powi 1024" and gt: "- ((2::rat) powi 1024) < of_int n"
    using ahi big by linarith+
  show ?thesis
    unfolding fl_def Let_def emax r y using False lt gt by (simp del: power_int_numeral)
qed

lemma float_of_int_small: "1 \<le> L \<Longrightarrow> L \<le> 40 \<Longrightarrow> float_of_int L = Inr (Fin (of_int L))"
  by (simp add: float_of_int_def fl_of_int)

lemma fl_dyadic:
  assumes "\<bar>m\<bar> < 2 ^ 53" "k \<le> 1074"
  shows "fl (of_int m / 2 ^ k) = Fin (of_int m / 2 ^ k)"
proof (cases "m = 0")
  case True
  then show ?thesis by (simp add: fl_def)
next
  case False
  let ?x = "of_int m / 2 ^ k :: rat"
  let ?a = "\<bar>?x\<bar>"
  have x0: "?x \<noteq> 0" using False by simp
  have a0: "0 < ?a" using x0 by simp
  have pk: "(2::rat) powi (- int k) = 1 / 2 ^ k"
    by (simp add: power_int_def field_simps)
  have "(of_int \<bar>m\<bar> :: rat) < of_int (2 ^ 53)" using assms(1) by (simp only: of_int_less_iff)
  then have m53: "\<bar>of_int m :: rat\<bar> < 2 ^ 53" by simp
  have ahi: "?a < 2 powi (53 - int k)"
  proof -
    have "?a = \<bar>of_int m\<bar> / 2 ^ k" by (simp add: abs_divide)
    also have "\<dots> < 2 ^ 53 / 2 ^ k" using m53 by (simp add: divide_strict_right_mono)
    also have "\<dots> = 2 powi 53 * 2 powi (- int k)" by (simp add: pk)
    also have "\<dots> = 2 powi (53 + (- int k))" by (subst power_int_add) simp_all
    finally show ?thesis by simp
  qed
  define e where "e = max (ilog2 ?a) (- 1022)"
  define u where "u = (2::rat) powi (e - 52)"
  have "2 powi (ilog2 ?a) \<le> ?a" using ilog2_bounds(1)[OF a0] .
  then have "(2::rat) powi (ilog2 ?a) < 2 powi (53 - int k)" using ahi by linarith
  then have "ilog2 ?a < 53 - int k" by (rule powi2_less_cancel)
  then have e_hi: "e - 52 \<le> - int k" using assms(2) by (simp add: e_def)
  define j where "j = nat (- int k - (e - 52))"
  have j: "- int k = e - 52 + int j" using e_hi by (simp add: j_def)
  have "(2::rat) powi (- int k) = 2 powi (e - 52 + int j)" by (simp only: j)
  also have "\<dots> = 2 powi (e - 52) * 2 powi (int j)" by (subst power_int_add) simp_all
  finally have split: "1 / 2 ^ k = u * (2::rat) ^ j" using pk by (simp add: u_def)
  have upos: "0 < u" unfolding u_def by (rule powi2_pos)
  have xu: "?x = of_int (m * 2 ^ j) * u"
  proof -
    have "?x = of_int m * (1 / 2 ^ k)" by simp
    also have "\<dots> = of_int m * (u * 2 ^ j)" by (simp only: split)
    finally show ?thesis by (simp add: mult_ac)
  qed
  have q: "?x / u = of_int (m * 2 ^ j)"
    using upos by (subst xu) simp
  have r: "round_half_even (?x / u) = m * 2 ^ j"
    unfolding q by (rule rhe_of_int)
  have "?a \<le> \<bar>of_int m\<bar>"
  proof -
    have "(1::rat) \<le> 2 ^ k" by simp
    then have "\<bar>of_int m :: rat\<bar> / 2 ^ k \<le> \<bar>of_int m\<bar> / 1"
      by (intro divide_left_mono) simp_all
    then show ?thesis by (simp add: abs_divide)
  qed
  then have "?a < 2 powi 53" using m53 by simp
  moreover have "(2::rat) powi 53 < 2 powi 1024" by (rule powi2_strict_mono) simp
  ultimately have big: "?a < 2 powi 1024" by linarith
  have lt: "\<not> 2 powi 1024 \<le> ?x" and gt: "\<not> ?x \<le> - ((2::rat) powi 1024)"
    using big by linarith+
  have "fl ?x = (let y = of_int (round_half_even (?x / u)) * u
           in if 2 powi 1024 \<le> y then PInf
              else if y \<le> - (2 powi 1024) then NInf
              else Fin y)"
    unfolding fl_def Let_def u_def e_def using x0 by (simp only: if_False)
  also have "\<dots> = (if 2 powi 1024 \<le> ?x then PInf else if ?x \<le> - (2 powi 1024) then NInf else Fin ?x)"
    unfolding Let_def r using xu by (simp only:)
  finally show ?thesis
    using lt gt by (simp only: if_False)
qed

lemma fl_neg_numeral: "(numeral n :: int) < 2 ^ 53 \<Longrightarrow> fl (- numeral n) = Fin (- numeral n)"
  using fl_of_int[of "- numeral n"] by simp

section \<open>Depreciation calculator\<close>

lemma schedule_loop_eq:
  "schedule_loop a ys sch = sch @ map (\<lambda>y. \<lparr>year = y + 1, amount = a\<rparr>) ys"
  by (induction ys arbitrary: sch) simp_all

lemma map_shift_range_py: "map (\<lambda>y. y + 1) (range_py n) = [1..n]"
  by (auto simp: range_py_def list_eq_iff_nth_eq)

lemma schedule_of_range:
  "schedule_loop a (range_py n) [] = map (\<lambda>y. \<lparr>year = y, amount = a\<rparr>) [1..n]"
proof -
  have "schedule_loop a (range_py n) [] =
        map (\<lambda>y. \<lparr>year = y, amount = a\<rparr>) (map (\<lambda>y. y + 1) (range_py n))"
    by (simp add: schedule_loop_eq comp_def)
  then show ?thesis by (simp only: map_shift_range_py)
qed

lemma calculate_depreciation_valid:
  assumes "fge C (Fin 0)" "1 \<le> L" "L \<le> 40"
  shows "\<exists>q. fdiv C (Fin (of_int L)) = Inr q \<and>
           depreciation_calc an C pis L =
             Inr \<lparr>rec_asset_name = an, rec_cost_basis = C, rec_placed_in_service = pis,
                  rec_method = ''SL'', rec_life_years = L,
                  schedule = map (\<lambda>y. \<lparr>year = y, amount = round2 q\<rparr>) [1..L]\<rparr>"
proof -
  have L0: "(of_int L :: rat) \<noteq> 0" using assms(2) by simp
  obtain q where q: "fdiv C (Fin (of_int L)) = Inr q"
    using L0 by (cases C) simp_all
  have v: "make_DepreciationInput an C pis L =
             Inr \<lparr>asset_name = an, cost_basis = C, placed_in_service = pis, life_years = L\<rparr>"
    using assms
    by (simp add: make_DepreciationInput_def validated_def check_ge_float_def check_range_int_def)
  have d: "truediv_float_int C L = Inr q"
    using assms q by (simp add: truediv_float_int_def float_of_int_small)
  show ?thesis
    using assms q v d
    by (simp add: depreciation_calc_def calculate_depreciation_def make_DepreciationRecord_def
        validated_def check_ge_float_def check_range_int_def check_literal_def schedule_of_range)
qed

lemma round2_2400: "round2 (Fin 2400) = Fin 2400"
proof -
  have "(2400 * 100 :: rat) = of_int 240000" by simp
  then have "round_half_even (2400 * 100) = 240000" by (simp only: rhe_of_int)
  moreover have "fl (of_int 2400) = Fin (of_int 2400)" by (rule fl_of_int) simp
  ultimately show ?thesis by simp
qed

lemma fdiv_12000_5: "fdiv (Fin 12000) (Fin 5) = Inr (Fin 2400)"
proof -
  have "fl (of_int 2400) = Fin (of_int 2400)" by (rule fl_of_int) simp
  then show ?thesis by simp
qed

text \<open>
  C1. For every cost basis \<open>C \<ge> 0\<close> and life \<open>1 \<le> L \<le> 40\<close> the depreciation endpoint
  returns a record: its schedule has \<open>L\<close> entries, their years are \<open>1..L\<close> in increasing
  order, every amount is \<open>round(C / L, 2)\<close> and the method is "SL". A cost basis of 12000
  over 5 years gives 5 entries of 2400.00.
\<close>

theorem C1_depreciation_schedule:
  "(fge C (Fin 0) \<and> 1 \<le> L \<and> L \<le> 40 \<longrightarrow>
      (\<exists>r q. depreciation_calc an C pis L = Inr r \<and>
             fdiv C (Fin (of_int L)) = Inr q \<and>
             int (length (schedule r)) = L \<and>
             map year (schedule r) = [1..L] \<and>
             (\<forall>e \<in> set (schedule r). amount e = round2 q) \<and>
             rec_method r = ''SL'')) \<and>
   (\<exists>r. depreciation_calc an (Fin 12000) pis 5 = Inr r \<and>
        map amount (schedule r) = replicate 5 (Fin 2400))"
proof (intro conjI impI)
  assume a: "fge C (Fin 0) \<and> 1 \<le> L \<and> L \<le> 40"
  then obtain q where q: "fdiv C (Fin (of_int L)) = Inr q"
    and r: "depreciation_calc an C pis L =
             Inr \<lparr>rec_asset_name = an, rec_cost_basis = C, rec_placed_in_service = pis,
                  rec_method = ''SL'', rec_life_years = L,
                  schedule = map (\<lambda>y. \<lparr>year = y, amount = round2 q\<rparr>) [1..L]\<rparr>"
    using calculate_depreciation_valid[of C L an pis] by blast
  have "int (length [1..L]) = L" using a by simp
  then show "\<exists>r q. depreciation_calc an C pis L = Inr r \<and>
             fdiv C (Fin (of_int L)) = Inr q \<and>
             int (length (schedule r)) = L \<and>
             map year (schedule r) = [1..L] \<and>
             (\<forall>e \<in> set (schedule r). amount e = round2 q) \<and>
             rec_method r = ''SL''"
    using q r by (auto simp: comp_def)
next
  obtain q where q: "fdiv (Fin 12000) (Fin (of_int 5)) = Inr q"
    and r: "depreciation_calc an (Fin 12000) pis 5 =
             Inr \<lparr>rec_asset_name = an, rec_cost_basis = Fin 12000, rec_placed_in_service = pis,
                  rec_method = ''SL'', rec_life_years = 5,
                  schedule = map (\<lambda>y. \<lparr>year = y, amount = round2 q\<rparr>) [1..5]\<rparr>"
    using calculate_depreciation_valid[of "Fin 12000" 5 an pis] by auto
  have "q = Fin 2400" using q fdiv_12000_5 by simp
  then have "map amount (map (\<lambda>y. \<lparr>year = y, amount = round2 q\<rparr>) [1..5]) = replicate 5 (Fin 2400)"
    by (simp only: round2_2400 map_map comp_def schedule_entry.simps map_replicate_const
        length_upto) simp
  then show "\<exists>r. depreciation_calc an (Fin 12000) pis 5 = Inr r \<and>
        map amount (schedule r) = replicate 5 (Fin 2400)"
    using r by simp
qed

theorem C1_depreciation_schedule_witness:
  "fge (Fin 1000) (Fin 0) \<and> (1::int) \<le> 3 \<and> (3::int) \<le> 40 \<and>
   (\<exists>r q. depreciation_calc ''van'' (Fin 1000) (Date 2024 1 1) 3 = Inr r \<and>
          fdiv (Fin 1000) (Fin 3) = Inr q \<and>
          length (schedule r) = 3 \<and>
          map year (schedule r) = [1, 2, 3] \<and>
          map amount (schedule r) = [round2 q, round2 q, round2 q] \<and>
          rec_method r = ''SL'')"
proof -
  have u: "[1..3::int] = [1, 2, 3]" by (simp add: upto_rec1)
  obtain r q where r: "depreciation_calc ''van'' (Fin 1000) (Date 2024 1 1) 3 = Inr r"
    and q: "fdiv (Fin 1000) (Fin (of_int 3)) = Inr q"
    and l: "int (length (schedule r)) = 3"
    and y: "map year (schedule r) = [1..3]"
    and a: "\<forall>e \<in> set (schedule r). amount e = round2 q"
    and m: "rec_method r = ''SL''"
    using C1_depreciation_schedule[of "Fin 1000" 3 "''van''" "Date 2024 1 1"] by auto
  have len: "length (schedule r) = 3" using l by simp
  then obtain e1 e2 e3 where es: "schedule r = [e1, e2, e3]"
    by (auto simp: length_Suc_conv numeral_3_eq_3)
  have "map amount (schedule r) = [round2 q, round2 q, round2 q]" using a es by simp
  then show ?thesis using r q len y m u by simp
qed

section \<open>Memo generator\<close>

lemma memo_generate_eq:
  "memo_generate t s =
     Inr \<lparr>memo_title = t, memo_position_summary = s, citations = [],
          memo_text = render_memo_text t s\<rparr>"
  by (simp add: memo_generate_def make_MemoInput_def generate_defense_memo_def make_Memo_def
      validated_def)

text \<open>
  C4. Two invocations of the memo generator with the same title and position summary return
  memos with the same \<open>memo_text\<close>, byte for byte, and the memo returned always has an
  empty list of citations.
\<close>

theorem C4_memo_deterministic:
  "(title p = title p' \<and> position_summary p = position_summary p' \<longrightarrow>
      (\<exists>m m'. generate_defense_memo p = Inr m \<and> generate_defense_memo p' = Inr m' \<and>
              memo_text m = memo_text m')) \<and>
   (\<exists>m. generate_defense_memo p = Inr m \<and> citations m = [])"
  by (simp add: generate_defense_memo_def make_Memo_def validated_def)

theorem C4_memo_deterministic_witness:
  "title \<lparr>title = ''Home office'', position_summary = ''Exclusive use''\<rparr> =
     title \<lparr>title = ''Home office'', position_summary = ''Exclusive use''\<rparr> \<and>
   (\<exists>m m'. generate_defense_memo \<lparr>title = ''Home office'', position_summary = ''Exclusive use''\<rparr> = Inr m \<and>
           generate_defense_memo \<lparr>title = ''Home office'', position_summary = ''Exclusive use''\<rparr> = Inr m' \<and>
           memo_text m = memo_text m' \<and> citations m = [] \<and>
           take 21 (memo_text m) = ''Position: Home office'')"
proof -
  let ?p = "\<lparr>title = ''Home office'', position_summary = ''Exclusive use''\<rparr>"
  from C4_memo_deterministic[of ?p ?p]
  obtain m m' where m: "generate_defense_memo ?p = Inr m" "generate_defense_memo ?p = Inr m'"
    "memo_text m = memo_text m'"
    by auto
  from C4_memo_deterministic[of ?p ?p] m(1) have c: "citations m = []" by auto
  have "take 21 (memo_text m) = ''Position: Home office''"
    using m(1) by (auto simp: generate_defense_memo_def make_Memo_def validated_def render_memo_text_def)
  then show ?thesis using m c by simp
qed

text \<open>
  C6, as the specification states it: a request whose title or position summary is the
  empty string fails instead of returning a memo. The fields are plain \<open>str\<close> fields with
  no length constraint, and the empty title is accepted.
\<close>

theorem C6_empty_title_counterexample:
  "memo_generate [] ''Exclusive use'' =
     Inr \<lparr>memo_title = [], memo_position_summary = ''Exclusive use'', citations = [],
          memo_text = render_memo_text [] ''Exclusive use''\<rparr>"
  by (rule memo_generate_eq)

text \<open>
  C6, amended: the memo generator accepts every pair of strings as title and position
  summary, the empty string included, and returns the memo that carries them.
\<close>

theorem C6_memo_accepts_all_strings:
  "\<exists>m. memo_generate t s = Inr m \<and> memo_title m = t \<and> memo_position_summary m = s \<and>
       memo_text m = render_memo_text t s"
  by (simp add: memo_generate_eq)

section \<open>Write-off flag detector\<close>

lemma lower_writeoff_categories: "map lower writeoff_categories = writeoff_categories"
  by (simp add: writeoff_categories_def lower_def lower_char_def)

lemma flagged_iff: "flagged e \<longleftrightarrow> lower (category e) \<in> set writeoff_categories"
proof -
  have "flagged e \<longleftrightarrow> lower (category e) \<in> set (map lower writeoff_categories)"
    by (auto simp: flagged_def equal_ignoring_case_def)
  then show ?thesis by (simp only: lower_writeoff_categories)
qed

lemma writeoff_loop_eq:
  "writeoff_loop es fs tot =
     (fs @ map (\<lambda>e. \<lparr>flag_category = category e, hint = writeoff_hint\<rparr>)
             (filter (\<lambda>e. lower (category e) \<in> set writeoff_categories) es),
      foldl fadd tot (map expense_amount es))"
  by (induction es arbitrary: fs tot) (simp_all add: Let_def)

lemma fl_numeral: "(numeral n :: int) < 2 ^ 53 \<Longrightarrow> fl (numeral n) = Fin (numeral n)"
  using fl_of_int[of "numeral n"] by simp

lemma rhe_numeral: "round_half_even (numeral n) = numeral n"
  using rhe_of_int[of "numeral n"] by simp

lemma lower_Mileage: "lower ''Mileage'' = ''mileage''"
  by code_simp

lemma lower_Travel: "lower ''Travel'' = ''travel''"
  by code_simp

text \<open>
  C3. For every list of expenses, \<open>total_reviewed\<close> is the sum of all the amounts rounded
  to two decimals, whatever is flagged, and the flags are exactly the expenses whose
  category equals, up to case, one of "home office", "r&d", "depreciation" and "mileage",
  in the order of the input.
\<close>

theorem C3_writeoff_flags:
  "total_reviewed (writeoff_flags es) = round2 (float_sum (map expense_amount es)) \<and>
   flags (writeoff_flags es) =
     map (\<lambda>e. \<lparr>flag_category = category e, hint = writeoff_hint\<rparr>) (filter flagged es)"
proof -
  have "filter flagged es = filter (\<lambda>e. lower (category e) \<in> set writeoff_categories) es"
    by (rule filter_cong) (simp_all add: flagged_iff)
  then show ?thesis
    by (simp add: writeoff_flags_def writeoff_loop_eq float_sum_def)
qed

theorem C3_writeoff_flags_witness:
  "total_reviewed (writeoff_flags [\<lparr>category = ''Mileage'', expense_amount = Fin 120\<rparr>,
                                   \<lparr>category = ''Travel'', expense_amount = Fin 80\<rparr>]) = Fin 200 \<and>
   flags (writeoff_flags [\<lparr>category = ''Mileage'', expense_amount = Fin 120\<rparr>,
                          \<lparr>category = ''Travel'', expense_amount = Fin 80\<rparr>]) =
     [\<lparr>flag_category = ''Mileage'', hint = writeoff_hint\<rparr>]"
proof -
  let ?es = "[\<lparr>category = ''Mileage'', expense_amount = Fin 120\<rparr>,
              \<lparr>category = ''Travel'', expense_amount = Fin 80\<rparr>]"
  have s: "round2 (float_sum (map expense_amount ?es)) = Fin 200"
    by (simp add: float_sum_def rhe_numeral fl_numeral)
  have f: "filter flagged ?es = [\<lparr>category = ''Mileage'', expense_amount = Fin 120\<rparr>]"
    by (simp add: flagged_iff lower_Mileage lower_Travel writeoff_categories_def)
  show ?thesis
    using C3_writeoff_flags[of ?es] s f by simp
qed

section \<open>Harvest scanner\<close>

lemma convertibleD: "convertible parse p \<Longrightarrow> \<exists>u. position_unrealized parse p = Inr u"
  by (simp add: convertible_def split: sum.splits)

lemma scan_loop_ok:
  "list_all (convertible parse) ps \<Longrightarrow>
   scan_loop parse t ps cands =
     Inr (cands @ map (candidate_entry parse) (filter (is_candidate parse (fabs t)) ps))"
proof (induction ps arbitrary: cands)
  case Nil
  then show ?case by simp
next
  case (Cons p ps)
  then obtain u where u: "position_unrealized parse p = Inr u"
    using convertibleD[of parse p] by auto
  from Cons show ?case
    by (simp add: u is_candidate_def candidate_entry_def)
qed

lemma scan_loop_fail:
  "\<not> list_all (convertible parse) ps \<Longrightarrow> \<exists>e. scan_loop parse t ps cands = Inl e"
proof (induction ps arbitrary: cands)
  case Nil
  then show ?case by simp
next
  case (Cons p ps)
  show ?case
  proof (cases "position_unrealized parse p")
    case (Inl e)
    then show ?thesis by simp
  next
    case (Inr u)
    then have "convertible parse p" by (simp add: convertible_def)
    then have "\<not> list_all (convertible parse) ps"
      using Cons.prems by simp
    then show ?thesis using Cons.IH Inr by simp
  qed
qed

lemma fabs_nonneg: "fge t (Fin 0) \<Longrightarrow> fabs t = t"
  by (cases t) simp_all

lemma make_HarvestPlan_ok:
  "fge t (Fin 0) \<Longrightarrow>
   make_HarvestPlan pn t (int n) cs =
     Inr \<lparr>plan_portfolio_name = pn, plan_threshold = t, positions_reviewed = int n,
          candidates = cs\<rparr>"
  by (simp add: make_HarvestPlan_def validated_def check_ge_float_def check_ge_int_def)

lemma make_HarvestPlan_bad:
  "\<not> fge t (Fin 0) \<Longrightarrow>
   make_HarvestPlan pn t (int n) cs = Inl (ValidationError [(''threshold'', ''greater_than_equal'')])"
  by (simp add: make_HarvestPlan_def validated_def check_ge_float_def check_ge_int_def)

lemma scan_Inr_D:
  assumes "scan_tax_loss_harvest parse payload = Inr plan"
  shows "list_all (convertible parse) (positions payload)"
    and "fge (threshold payload) (Fin 0)"
    and "plan = \<lparr>plan_portfolio_name = portfolio_name payload,
                 plan_threshold = threshold payload,
                 positions_reviewed = int (length (positions payload)),
                 candidates = map (candidate_entry parse)
                   (filter (is_candidate parse (fabs (threshold payload))) (positions payload))\<rparr>"
proof -
  show c: "list_all (convertible parse) (positions payload)"
    using assms scan_loop_fail[of parse "positions payload" "threshold payload" "[]"]
    by (cases "list_all (convertible parse) (positions payload)")
      (auto simp: scan_tax_loss_harvest_def)
  show t: "fge (threshold payload) (Fin 0)"
    using assms c make_HarvestPlan_bad[of "threshold payload"]
    by (cases "fge (threshold payload) (Fin 0)")
      (auto simp: scan_tax_loss_harvest_def scan_loop_ok)
  show "plan = \<lparr>plan_portfolio_name = portfolio_name payload,
                 plan_threshold = threshold payload,
                 positions_reviewed = int (length (positions payload)),
                 candidates = map (candidate_entry parse)
                   (filter (is_candidate parse (fabs (threshold payload))) (positions payload))\<rparr>"
    using assms c t by (simp add: scan_tax_loss_harvest_def scan_loop_ok make_HarvestPlan_ok)
qed

lemma scan_ok:
  assumes "list_all (convertible parse) (positions payload)" "fge (threshold payload) (Fin 0)"
  shows "scan_tax_loss_harvest parse payload =
           Inr \<lparr>plan_portfolio_name = portfolio_name payload,
                plan_threshold = threshold payload,
                positions_reviewed = int (length (positions payload)),
                candidates = map (candidate_entry parse)
                  (filter (is_candidate parse (fabs (threshold payload))) (positions payload))\<rparr>"
  using assms by (simp add: scan_tax_loss_harvest_def scan_loop_ok make_HarvestPlan_ok)

lemma fl_cb: "fl (- (128001 / 256)) = Fin (- (128001 / 256))"
  using fl_dyadic[of "- 128001" 8] by simp

lemma rhe_near:
  assumes "\<bar>x - of_int n\<bar> < 1 / 2"
  shows "round_half_even x = n"
proof (cases "of_int n \<le> x")
  case True
  then have "\<lfloor>x\<rfloor> = n" using assms by (intro floor_unique) (auto simp: abs_if split: if_splits)
  then show ?thesis using assms True by (simp add: round_half_even_def abs_if)
next
  case False
  then have f: "\<lfloor>x\<rfloor> = n - 1" using assms by (intro floor_unique) (auto simp: abs_if split: if_splits)
  have "\<not> x - of_int (n - 1) < 1 / 2" "1 / 2 < x - of_int (n - 1)"
    using assms False by (auto simp: abs_if split: if_splits)
  then show ?thesis unfolding round_half_even_def Let_def f by simp
qed

lemma round2_cb: "round2 (Fin (- (128001 / 256))) = Fin (- 500)"
proof -
  have "round_half_even (- (128001 / 256) * 100) = - 50000"
    by (rule rhe_near) simp
  then have "round2 (Fin (- (128001 / 256))) = fl (of_int (- 50000) / 100)"
    by (simp only: round2.simps)
  then show ?thesis by (simp add: fl_neg_numeral)
qed

lemma unrealized_cb:
  "position_unrealized parse
     [''cost_basis'' \<mapsto> JFloat (Fin (128001 / 256)),
      ''current_price'' \<mapsto> JFloat (Fin 0),
      ''quantity'' \<mapsto> JFloat (Fin 1)] = Inr (Fin (- 500))"
proof -
  have "fmul (fsub (Fin 0) (Fin (128001 / 256))) (Fin 1) = Fin (- (128001 / 256))"
    by (simp add: fsub_def fl_cb)
  then show ?thesis
    by (simp add: position_unrealized_def dict_get_def round2_cb del: round2.simps)
qed

text \<open>
  C2, as the specification states it: a position is a candidate if and only if the raw
  product \<open>(current_price - cost_basis) * quantity\<close> is below \<open>-T\<close>. The scanner compares the
  product rounded to two decimals: for a cost basis of 500.00390625, a price of 0, a
  quantity of 1 and a threshold of 500 the product is below -500, its rounding is -500.00,
  and the position is no candidate.
\<close>

theorem C2_rounding_counterexample:
  "flt (fmul (fsub (Fin 0) (Fin (128001 / 256))) (Fin 1)) (fneg (Fin 500)) \<and>
   scan_tax_loss_harvest (\<lambda>s. None)
     \<lparr>portfolio_name = ''p'',
      positions = [[''cost_basis'' \<mapsto> JFloat (Fin (128001 / 256)),
                    ''current_price'' \<mapsto> JFloat (Fin 0),
                    ''quantity'' \<mapsto> JFloat (Fin 1)]],
      threshold = Fin 500\<rparr> =
   Inr \<lparr>plan_portfolio_name = ''p'', plan_threshold = Fin 500, positions_reviewed = 1,
        candidates = []\<rparr>"
  by (simp add: fsub_def fl_cb scan_tax_loss_harvest_def unrealized_cb make_HarvestPlan_def
      validated_def check_ge_float_def check_ge_int_def)

lemma unrealized_600:
  "position_unrealized parse
     [''cost_basis'' \<mapsto> JInt 100, ''current_price'' \<mapsto> JInt 40, ''quantity'' \<mapsto> JInt 10]
   = Inr (Fin (- 600))"
proof -
  have i: "float_of_int 100 = Inr (Fin 100)" "float_of_int 40 = Inr (Fin 40)"
    "float_of_int 10 = Inr (Fin 10)"
    using fl_of_int[of 100] fl_of_int[of 40] fl_of_int[of 10] by (simp_all add: float_of_int_def)
  have m: "fmul (fsub (Fin 40) (Fin 100)) (Fin 10) = Fin (- 600)"
    by (simp add: fsub_def fl_neg_numeral)
  have "round_half_even (- 600 * 100) = - 60000"
    by (rule rhe_near) simp
  then have r: "round2 (Fin (- 600)) = Fin (- 600)"
    by (simp add: fl_neg_numeral)
  show ?thesis
    by (simp add: position_unrealized_def dict_get_def i m r del: round2.simps)
qed

lemma py_float_dict_get:
  "py_float parse (dict_get p k (JInt 0)) = numeric_value parse p k"
  by (simp add: dict_get_def numeric_value_def float_of_int_def fl_def split: option.splits)

lemma position_unrealized_values:
  assumes "numeric_value parse p ''cost_basis'' = Inr cb"
    and "numeric_value parse p ''current_price'' = Inr cp"
    and "numeric_value parse p ''quantity'' = Inr qty"
  shows "position_unrealized parse p = Inr (round2 (fmul (fsub cp cb) qty))"
  unfolding position_unrealized_def py_float_dict_get assms by (simp del: round2.simps)

lemma rounded_unrealized_iff:
  "rounded_unrealized parse p = Some u \<longleftrightarrow> position_unrealized parse p = Inr u"
  unfolding position_unrealized_def py_float_dict_get rounded_unrealized_def
  by (simp split: sum.splits del: round2.simps)

lemma rounded_unrealized_values:
  assumes "numeric_value parse p ''cost_basis'' = Inr cb"
    and "numeric_value parse p ''current_price'' = Inr cp"
    and "numeric_value parse p ''quantity'' = Inr qty"
  shows "rounded_unrealized parse p = Some (round2 (fmul (fsub cp cb) qty))"
  unfolding rounded_unrealized_iff using assms by (rule position_unrealized_values)

lemma loss_candidate_eq:
  assumes "convertible parse p"
  shows "loss_candidate parse t p =
           (if is_candidate parse t p then Some (candidate_entry parse p) else None)"
proof -
  obtain u where u: "position_unrealized parse p = Inr u"
    using convertibleD[OF assms] by blast
  then have "rounded_unrealized parse p = Some u" by (simp only: rounded_unrealized_iff)
  then show ?thesis
    by (simp add: loss_candidate_def is_candidate_def candidate_entry_def u)
qed

lemma map_filter_loss_candidate:
  "list_all (convertible parse) ps \<Longrightarrow>
   List.map_filter (loss_candidate parse t) ps =
     map (candidate_entry parse) (filter (is_candidate parse t) ps)"
  by (induction ps) (simp_all add: List.map_filter_simps loss_candidate_eq)

lemma scan_candidates:
  assumes "fge (threshold payload) (Fin 0)" "scan_tax_loss_harvest parse payload = Inr plan"
  shows "candidates plan =
           List.map_filter (loss_candidate parse (threshold payload)) (positions payload)"
proof -
  have "fabs (threshold payload) = threshold payload" using assms(1) by (rule fabs_nonneg)
  then have "candidates plan = map (candidate_entry parse)
      (filter (is_candidate parse (threshold payload)) (positions payload))"
    using scan_Inr_D(3)[OF assms(2)] by simp
  then show ?thesis
    using scan_Inr_D(1)[OF assms(2)] by (simp only: map_filter_loss_candidate)
qed

lemma loss_candidate_SomeD:
  "loss_candidate parse t p = Some c \<Longrightarrow> flt (unrealized c) (fneg t)"
  by (auto simp: loss_candidate_def split: option.splits if_splits)

text \<open>
  C2, amended: for every threshold \<open>T \<ge> 0\<close>, in the plan the scanner returns a position
  appears in the candidates if and only if \<open>round((current_price - cost_basis) * quantity, 2)\<close>
  is below \<open>-T\<close>: the candidates are, in the input order, the entries of the positions
  with that property, each carrying the rounded amount, and \<open>positions_reviewed\<close> is the
  number of positions.
\<close>

theorem C2_candidates_by_rounded_loss:
  "fge (threshold payload) (Fin 0) \<and> scan_tax_loss_harvest parse payload = Inr plan \<longrightarrow>
     positions_reviewed plan = int (length (positions payload)) \<and>
     candidates plan =
       List.map_filter (loss_candidate parse (threshold payload)) (positions payload) \<and>
     (p \<in> set (positions payload) \<and>
      numeric_value parse p ''cost_basis'' = Inr cb \<and>
      numeric_value parse p ''current_price'' = Inr cp \<and>
      numeric_value parse p ''quantity'' = Inr qty \<longrightarrow>
        (\<lparr>symbol = dict_get p ''symbol'' JNull,
          unrealized = round2 (fmul (fsub cp cb) qty),
          note' = wash_sale_note\<rparr> \<in> set (candidates plan)
         \<longleftrightarrow> flt (round2 (fmul (fsub cp cb) qty)) (fneg (threshold payload))))"
proof (intro impI conjI)
  assume a: "fge (threshold payload) (Fin 0) \<and> scan_tax_loss_harvest parse payload = Inr plan"
  show "positions_reviewed plan = int (length (positions payload))"
    using scan_Inr_D(3)[of parse payload plan] a by simp
  show c: "candidates plan =
       List.map_filter (loss_candidate parse (threshold payload)) (positions payload)"
    using a scan_candidates[of payload parse plan] by blast
  assume b: "p \<in> set (positions payload) \<and>
      numeric_value parse p ''cost_basis'' = Inr cb \<and>
      numeric_value parse p ''current_price'' = Inr cp \<and>
      numeric_value parse p ''quantity'' = Inr qty"
  let ?u = "round2 (fmul (fsub cp cb) qty)"
  let ?c = "\<lparr>symbol = dict_get p ''symbol'' JNull, unrealized = ?u, note' = wash_sale_note\<rparr>"
  have ru: "rounded_unrealized parse p = Some ?u"
    using b rounded_unrealized_values[of parse p cb cp qty] by blast
  show "?c \<in> set (candidates plan) \<longleftrightarrow> flt ?u (fneg (threshold payload))"
  proof
    assume "?c \<in> set (candidates plan)"
    then obtain p' where "loss_candidate parse (threshold payload) p' = Some ?c"
      unfolding c by (auto simp: List.map_filter_def)
    then have "flt (unrealized ?c) (fneg (threshold payload))" by (rule loss_candidate_SomeD)
    then show "flt ?u (fneg (threshold payload))" by simp
  next
    assume "flt ?u (fneg (threshold payload))"
    then have "loss_candidate parse (threshold payload) p = Some ?c"
      using ru by (simp add: loss_candidate_def del: round2.simps)
    then show "?c \<in> set (candidates plan)"
      unfolding c using b by (force simp: List.map_filter_def)
  qed
qed

theorem C2_candidates_by_rounded_loss_witness:
  "fge (Fin 500) (Fin 0) \<and>
   scan_tax_loss_harvest (\<lambda>s. None)
     \<lparr>portfolio_name = ''main'',
      positions = [[''cost_basis'' \<mapsto> JFloat (Fin (128001 / 256)),
                    ''current_price'' \<mapsto> JFloat (Fin 0),
                    ''quantity'' \<mapsto> JFloat (Fin 1)],
                   [''cost_basis'' \<mapsto> JInt 100, ''current_price'' \<mapsto> JInt 40,
                    ''quantity'' \<mapsto> JInt 10]],
      threshold = Fin 500\<rparr> =
   Inr \<lparr>plan_portfolio_name = ''main'', plan_threshold = Fin 500, positions_reviewed = 2,
        candidates = [\<lparr>symbol = JNull, unrealized = Fin (- 600), note' = wash_sale_note\<rparr>]\<rparr> \<and>
   List.map_filter (loss_candidate (\<lambda>s. None) (Fin 500))
     [[''cost_basis'' \<mapsto> JFloat (Fin (128001 / 256)), ''current_price'' \<mapsto> JFloat (Fin 0),
       ''quantity'' \<mapsto> JFloat (Fin 1)],
      [''cost_basis'' \<mapsto> JInt 100, ''current_price'' \<mapsto> JInt 40, ''quantity'' \<mapsto> JInt 10]] =
     [\<lparr>symbol = JNull, unrealized = Fin (- 600), note' = wash_sale_note\<rparr>]"
proof -
  let ?p1 = "[''cost_basis'' \<mapsto> JFloat (Fin (128001 / 256)), ''current_price'' \<mapsto> JFloat (Fin 0),
       ''quantity'' \<mapsto> JFloat (Fin 1)]"
  let ?p2 = "[''cost_basis'' \<mapsto> JInt 100, ''current_price'' \<mapsto> JInt 40, ''quantity'' \<mapsto> JInt 10]"
  let ?payload = "\<lparr>portfolio_name = ''main'', positions = [?p1, ?p2], threshold = Fin 500\<rparr>"
  let ?plan = "\<lparr>plan_portfolio_name = ''main'', plan_threshold = Fin 500, positions_reviewed = 2,
        candidates = [\<lparr>symbol = JNull, unrealized = Fin (- 600), note' = wash_sale_note\<rparr>]\<rparr>"
  have s: "scan_tax_loss_harvest (\<lambda>s. None) ?payload = Inr ?plan"
    by (simp add: scan_tax_loss_harvest_def unrealized_600 unrealized_cb make_HarvestPlan_def
        validated_def check_ge_float_def check_ge_int_def dict_get_def)
  have "candidates ?plan =
          List.map_filter (loss_candidate (\<lambda>s. None) (threshold ?payload)) (positions ?payload)"
    using C2_candidates_by_rounded_loss[of ?payload "\<lambda>s. None" ?plan] s by simp
  then show ?thesis using s by simp
qed



lemma fl_0: "fl 0 = Fin 0"
  by (simp add: fl_def)

lemma round2_0: "round2 (Fin 0) = Fin 0"
  using rhe_of_int[of 0] by (simp add: fl_0)

lemma float_of_int_0: "float_of_int 0 = Inr (Fin 0)"
  by (simp add: float_of_int_def fl_0)

lemma unrealized_empty: "position_unrealized parse Map.empty = Inr (Fin 0)"
  by (simp add: position_unrealized_def dict_get_def fsub_def float_of_int_0 fl_0 round2_0
      del: round2.simps)


lemma position_unrealized_symbol:
  "position_unrealized parse (p(''symbol'' := v)) = position_unrealized parse p"
proof -
  have "dict_get (p(''symbol'' := v)) ''cost_basis'' (JInt 0) = dict_get p ''cost_basis'' (JInt 0)"
    "dict_get (p(''symbol'' := v)) ''current_price'' (JInt 0) = dict_get p ''current_price'' (JInt 0)"
    "dict_get (p(''symbol'' := v)) ''quantity'' (JInt 0) = dict_get p ''quantity'' (JInt 0)"
    by (simp_all add: dict_get_def)
  then show ?thesis by (simp only: position_unrealized_def)
qed

lemma scan_Inr_iff:
  "(\<exists>plan. scan_tax_loss_harvest parse payload = Inr plan) \<longleftrightarrow>
     list_all (convertible parse) (positions payload) \<and> fge (threshold payload) (Fin 0)"
  using scan_ok[of parse payload] scan_Inr_D(1,2)[of parse payload] by blast

text \<open>
  C10. A position that qualifies as a candidate and has no "symbol" key is emitted as a
  candidate whose symbol is \<open>None\<close>. The symbol plays no part in the conversions, and the
  scan returns a plan exactly when every position converts and the threshold is valid, so
  a missing symbol drops nothing and raises nothing.
\<close>

theorem C10_missing_symbol:
  "(scan_tax_loss_harvest parse payload = Inr plan \<and> p \<in> set (positions payload) \<and>
    p ''symbol'' = None \<and> position_unrealized parse p = Inr u \<and>
    flt u (fneg (fabs (threshold payload))) \<longrightarrow>
      \<lparr>symbol = JNull, unrealized = u, note' = wash_sale_note\<rparr> \<in> set (candidates plan)) \<and>
   position_unrealized parse (p(''symbol'' := v)) = position_unrealized parse p \<and>
   ((\<exists>plan'. scan_tax_loss_harvest parse payload = Inr plan') \<longleftrightarrow>
      list_all (convertible parse) (positions payload) \<and> fge (threshold payload) (Fin 0))"
proof (intro conjI impI)
  assume a: "scan_tax_loss_harvest parse payload = Inr plan \<and> p \<in> set (positions payload) \<and>
    p ''symbol'' = None \<and> position_unrealized parse p = Inr u \<and>
    flt u (fneg (fabs (threshold payload)))"
  then have c: "candidates plan = map (candidate_entry parse)
      (filter (is_candidate parse (fabs (threshold payload))) (positions payload))"
    using scan_Inr_D(3)[of parse payload plan] by simp
  have q: "is_candidate parse (fabs (threshold payload)) p"
    using a by (simp add: is_candidate_def)
  have e: "candidate_entry parse p = \<lparr>symbol = JNull, unrealized = u, note' = wash_sale_note\<rparr>"
    using a by (simp add: candidate_entry_def dict_get_def)
  have "candidate_entry parse p \<in> set (candidates plan)"
    unfolding c using a q by simp
  then show "\<lparr>symbol = JNull, unrealized = u, note' = wash_sale_note\<rparr> \<in> set (candidates plan)"
    by (simp only: e)
next
  show "position_unrealized parse (p(''symbol'' := v)) = position_unrealized parse p"
    by (rule position_unrealized_symbol)
next
  show "(\<exists>plan'. scan_tax_loss_harvest parse payload = Inr plan') \<longleftrightarrow>
      list_all (convertible parse) (positions payload) \<and> fge (threshold payload) (Fin 0)"
    by (rule scan_Inr_iff)
qed

theorem C10_missing_symbol_witness:
  "scan_tax_loss_harvest (\<lambda>s. None)
     \<lparr>portfolio_name = ''main'',
      positions = [[''cost_basis'' \<mapsto> JInt 100, ''current_price'' \<mapsto> JInt 40,
                    ''quantity'' \<mapsto> JInt 10]],
      threshold = Fin 500\<rparr> =
   Inr \<lparr>plan_portfolio_name = ''main'', plan_threshold = Fin 500, positions_reviewed = 1,
        candidates = [\<lparr>symbol = JNull, unrealized = Fin (- 600), note' = wash_sale_note\<rparr>]\<rparr> \<and>
   [''cost_basis'' \<mapsto> JInt 100, ''current_price'' \<mapsto> JInt 40, ''quantity'' \<mapsto> JInt 10] ''symbol''
     = None \<and>
   flt (Fin (- 600)) (fneg (fabs (Fin 500))) \<and>
   \<lparr>symbol = JNull, unrealized = Fin (- 600), note' = wash_sale_note\<rparr> \<in>
     set (candidates \<lparr>plan_portfolio_name = ''main'', plan_threshold = Fin 500,
                      positions_reviewed = 1,
                      candidates = [\<lparr>symbol = JNull, unrealized = Fin (- 600),
                                     note' = wash_sale_note\<rparr>]\<rparr>)"
proof -
  let ?p = "[''cost_basis'' \<mapsto> JInt 100, ''current_price'' \<mapsto> JInt 40, ''quantity'' \<mapsto> JInt 10]"
  let ?payload = "\<lparr>portfolio_name = ''main'', positions = [?p], threshold = Fin 500\<rparr>"
  let ?plan = "\<lparr>plan_portfolio_name = ''main'', plan_threshold = Fin 500, positions_reviewed = 1,
        candidates = [\<lparr>symbol = JNull, unrealized = Fin (- 600), note' = wash_sale_note\<rparr>]\<rparr>"
  have s: "scan_tax_loss_harvest (\<lambda>s. None) ?payload = Inr ?plan"
    by (simp add: scan_tax_loss_harvest_def unrealized_600 make_HarvestPlan_def validated_def
        check_ge_float_def check_ge_int_def dict_get_def)
  have n: "?p ''symbol'' = None" by simp
  have f: "flt (Fin (- 600)) (fneg (fabs (threshold ?payload)))" by simp
  have "\<lparr>symbol = JNull, unrealized = Fin (- 600), note' = wash_sale_note\<rparr> \<in> set (candidates ?plan)"
    using C10_missing_symbol[of "\<lambda>s. None" ?payload ?plan ?p "Fin (- 600)"] s n f
      unrealized_600[of "\<lambda>s. None"]
    by simp
  then show ?thesis using s n by simp
qed

lemma numeric_value_absent: "p k = None \<Longrightarrow> numeric_value parse p k = Inr (Fin 0)"
  by (simp add: numeric_value_def)

lemma numbers_or_absent_convertible:
  assumes "numbers_or_absent parse p"
  shows "convertible parse p"
proof -
  obtain cb where cb: "numeric_value parse p ''cost_basis'' = Inr cb"
    using assms by (auto simp: numbers_or_absent_def numeric_fields_def split: sum.splits)
  obtain cp where cp: "numeric_value parse p ''current_price'' = Inr cp"
    using assms by (auto simp: numbers_or_absent_def numeric_fields_def split: sum.splits)
  obtain qty where qty: "numeric_value parse p ''quantity'' = Inr qty"
    using assms by (auto simp: numbers_or_absent_def numeric_fields_def split: sum.splits)
  show ?thesis
    using position_unrealized_values[OF cb cp qty] by (simp add: convertible_def)
qed

lemma round2_neg_1000: "round2 (Fin (- 1000)) = Fin (- 1000)"
proof -
  have "round_half_even (- 1000 * 100) = - 100000" by (rule rhe_near) simp
  then show ?thesis by (simp add: fl_neg_numeral)
qed

text \<open>
  C9. The conversion of a missing numeric field gives 0.0, and the unrealized amount of a
  position is \<open>round((current_price - cost_basis) * quantity, 2)\<close> with 0 in the place of
  every missing field, whichever of \<open>cost_basis\<close>, \<open>current_price\<close> and \<open>quantity\<close> is
  absent. A scan whose positions have each numeric field absent or a value that converts,
  with a valid threshold, returns a plan.
\<close>

theorem C9_missing_fields_default_zero:
  "(k \<in> set numeric_fields \<and> p k = None \<longrightarrow>
      py_float parse (dict_get p k (JInt 0)) = Inr (Fin 0)) \<and>
   (numeric_value parse p ''cost_basis'' = Inr cb \<and>
    numeric_value parse p ''current_price'' = Inr cp \<and>
    numeric_value parse p ''quantity'' = Inr qty \<longrightarrow>
      position_unrealized parse p = Inr (round2 (fmul (fsub cp cb) qty))) \<and>
   (p ''cost_basis'' = None \<and>
    numeric_value parse p ''current_price'' = Inr cp \<and>
    numeric_value parse p ''quantity'' = Inr qty \<longrightarrow>
      position_unrealized parse p = Inr (round2 (fmul (fsub cp (Fin 0)) qty))) \<and>
   (p ''current_price'' = None \<and>
    numeric_value parse p ''cost_basis'' = Inr cb \<and>
    numeric_value parse p ''quantity'' = Inr qty \<longrightarrow>
      position_unrealized parse p = Inr (round2 (fmul (fsub (Fin 0) cb) qty))) \<and>
   (p ''quantity'' = None \<and>
    numeric_value parse p ''cost_basis'' = Inr cb \<and>
    numeric_value parse p ''current_price'' = Inr cp \<longrightarrow>
      position_unrealized parse p = Inr (round2 (fmul (fsub cp cb) (Fin 0)))) \<and>
   (fge t (Fin 0) \<and> list_all (numbers_or_absent parse) ps \<longrightarrow>
      (\<exists>plan. scan_tax_loss_harvest parse \<lparr>portfolio_name = pn, positions = ps, threshold = t\<rparr>
                = Inr plan \<and>
              positions_reviewed plan = int (length ps)))"
proof (intro conjI impI)
  assume "k \<in> set numeric_fields \<and> p k = None"
  then show "py_float parse (dict_get p k (JInt 0)) = Inr (Fin 0)"
    by (simp add: dict_get_def float_of_int_0)
next
  assume "numeric_value parse p ''cost_basis'' = Inr cb \<and>
    numeric_value parse p ''current_price'' = Inr cp \<and>
    numeric_value parse p ''quantity'' = Inr qty"
  then show "position_unrealized parse p = Inr (round2 (fmul (fsub cp cb) qty))"
    using position_unrealized_values[of parse p cb cp qty] by blast
next
  assume "p ''cost_basis'' = None \<and>
    numeric_value parse p ''current_price'' = Inr cp \<and>
    numeric_value parse p ''quantity'' = Inr qty"
  then show "position_unrealized parse p = Inr (round2 (fmul (fsub cp (Fin 0)) qty))"
    using position_unrealized_values[of parse p "Fin 0" cp qty]
      numeric_value_absent[of p "''cost_basis''" parse] by blast
next
  assume "p ''current_price'' = None \<and>
    numeric_value parse p ''cost_basis'' = Inr cb \<and>
    numeric_value parse p ''quantity'' = Inr qty"
  then show "position_unrealized parse p = Inr (round2 (fmul (fsub (Fin 0) cb) qty))"
    using position_unrealized_values[of parse p cb "Fin 0" qty]
      numeric_value_absent[of p "''current_price''" parse] by blast
next
  assume "p ''quantity'' = None \<and>
    numeric_value parse p ''cost_basis'' = Inr cb \<and>
    numeric_value parse p ''current_price'' = Inr cp"
  then show "position_unrealized parse p = Inr (round2 (fmul (fsub cp cb) (Fin 0)))"
    using position_unrealized_values[of parse p cb cp "Fin 0"]
      numeric_value_absent[of p "''quantity''" parse] by blast
next
  assume a: "fge t (Fin 0) \<and> list_all (numbers_or_absent parse) ps"
  then have "list_all (convertible parse) ps"
    by (auto simp: list_all_iff numbers_or_absent_convertible)
  then show "\<exists>plan. scan_tax_loss_harvest parse
                \<lparr>portfolio_name = pn, positions = ps, threshold = t\<rparr> = Inr plan \<and>
              positions_reviewed plan = int (length ps)"
    using a scan_ok[of parse "\<lparr>portfolio_name = pn, positions = ps, threshold = t\<rparr>"] by simp
qed

theorem C9_missing_fields_default_zero_witness:
  "[''cost_basis'' \<mapsto> JInt 100, ''quantity'' \<mapsto> JInt 10] ''current_price'' = None \<and>
   numeric_value (\<lambda>s. None) [''cost_basis'' \<mapsto> JInt 100, ''quantity'' \<mapsto> JInt 10] ''cost_basis''
     = Inr (Fin 100) \<and>
   numeric_value (\<lambda>s. None) [''cost_basis'' \<mapsto> JInt 100, ''quantity'' \<mapsto> JInt 10] ''quantity''
     = Inr (Fin 10) \<and>
   position_unrealized (\<lambda>s. None) [''cost_basis'' \<mapsto> JInt 100, ''quantity'' \<mapsto> JInt 10]
     = Inr (Fin (- 1000)) \<and>
   fge (Fin 500) (Fin 0) \<and>
   (\<exists>plan. scan_tax_loss_harvest (\<lambda>s. None)
       \<lparr>portfolio_name = ''main'',
        positions = [[''cost_basis'' \<mapsto> JInt 100, ''quantity'' \<mapsto> JInt 10], Map.empty],
        threshold = Fin 500\<rparr> = Inr plan \<and>
      positions_reviewed plan = 2)"
proof -
  let ?p = "[''cost_basis'' \<mapsto> JInt 100, ''quantity'' \<mapsto> JInt 10] :: pydict"
  have i: "float_of_int 100 = Inr (Fin 100)" "float_of_int 10 = Inr (Fin 10)"
    using fl_of_int[of 100] fl_of_int[of 10] by (simp_all add: float_of_int_def)
  have n: "?p ''current_price'' = None" by simp
  have cb: "numeric_value (\<lambda>s. None) ?p ''cost_basis'' = Inr (Fin 100)"
    by (simp add: numeric_value_def i)
  have qty: "numeric_value (\<lambda>s. None) ?p ''quantity'' = Inr (Fin 10)"
    by (simp add: numeric_value_def i)
  have t: "fge (Fin 500) (Fin 0)" by simp
  have l: "list_all (numbers_or_absent (\<lambda>s. None)) [?p, Map.empty]"
    by (simp add: numbers_or_absent_def numeric_fields_def numeric_value_def i)
  have "position_unrealized (\<lambda>s. None) ?p =
          Inr (round2 (fmul (fsub (Fin 0) (Fin 100)) (Fin 10)))"
    using C9_missing_fields_default_zero[of "''quantity''" ?p "\<lambda>s. None" "Fin 100" "Fin 0"
        "Fin 10" "Fin 500" "[]" "''main''"] n cb qty by blast
  moreover have "fmul (fsub (Fin 0) (Fin 100)) (Fin 10) = Fin (- 1000)"
    by (simp add: fsub_def fl_neg_numeral)
  ultimately have u: "position_unrealized (\<lambda>s. None) ?p = Inr (Fin (- 1000))"
    by (simp only: round2_neg_1000)
  have "\<exists>plan. scan_tax_loss_harvest (\<lambda>s. None)
       \<lparr>portfolio_name = ''main'', positions = [?p, Map.empty], threshold = Fin 500\<rparr> = Inr plan \<and>
      positions_reviewed plan = int (length [?p, Map.empty])"
    using C9_missing_fields_default_zero[of "''quantity''" ?p "\<lambda>s. None" "Fin 100" "Fin 0"
        "Fin 10" "Fin 500" "[?p, Map.empty]" "''main''"] t l by blast
  then have c: "\<exists>plan. scan_tax_loss_harvest (\<lambda>s. None)
       \<lparr>portfolio_name = ''main'', positions = [?p, Map.empty], threshold = Fin 500\<rparr> = Inr plan \<and>
      positions_reviewed plan = 2"
    by simp
  show ?thesis
    using n cb qty u t c by blast
qed

lemma depreciation_calc_rejects:
  assumes "check_ge_float ''cost_basis'' cb (Fin 0) @ check_range_int ''life_years'' ly 1 40 \<noteq> []"
  shows "depreciation_calc an cb pis ly =
           Inl (ValidationError
                  (check_ge_float ''cost_basis'' cb (Fin 0) @ check_range_int ''life_years'' ly 1 40))"
proof -
  have "make_DepreciationInput an cb pis ly =
          Inl (ValidationError
                 (check_ge_float ''cost_basis'' cb (Fin 0) @ check_range_int ''life_years'' ly 1 40))"
    unfolding make_DepreciationInput_def validated_def using assms by (simp only: if_False)
  then show ?thesis by (simp add: depreciation_calc_def)
qed

lemma harvest_scan_eq: "harvest_scan parse pn ps (Some t) =
    scan_tax_loss_harvest parse \<lparr>portfolio_name = pn, positions = ps, threshold = t\<rparr>"
  by (simp add: harvest_scan_def make_HarvestInput_def validated_def)

text \<open>
  The constraints that are enforced. A depreciation request that violates
  \<open>cost_basis \<ge> 0\<close> or \<open>1 \<le> life_years \<le> 40\<close> fails on input with a ValidationError
  that names the field and the constraint. A harvest scan whose threshold violates
  \<open>threshold \<ge> 0\<close> returns no plan, and ends with the ValidationError of the plan when
  every position converts.
\<close>

lemma validation_rejects:
  "(\<not> fge cb (Fin 0) \<longrightarrow>
      (\<exists>errs. depreciation_calc an cb pis ly = Inl (ValidationError errs) \<and>
              (''cost_basis'', ''greater_than_equal'') \<in> set errs)) \<and>
   (ly < 1 \<longrightarrow>
      (\<exists>errs. depreciation_calc an cb pis ly = Inl (ValidationError errs) \<and>
              (''life_years'', ''greater_than_equal'') \<in> set errs)) \<and>
   (40 < ly \<longrightarrow>
      (\<exists>errs. depreciation_calc an cb pis ly = Inl (ValidationError errs) \<and>
              (''life_years'', ''less_than_equal'') \<in> set errs)) \<and>
   (\<not> fge t (Fin 0) \<longrightarrow>
      (\<forall>plan. harvest_scan parse pn ps (Some t) \<noteq> Inr plan) \<and>
      (list_all (convertible parse) ps \<longrightarrow>
         harvest_scan parse pn ps (Some t) =
           Inl (ValidationError [(''threshold'', ''greater_than_equal'')])))"
proof (intro conjI impI allI)
  assume "\<not> fge cb (Fin 0)"
  then show "\<exists>errs. depreciation_calc an cb pis ly = Inl (ValidationError errs) \<and>
              (''cost_basis'', ''greater_than_equal'') \<in> set errs"
    using depreciation_calc_rejects[of cb ly an pis] by (simp add: check_ge_float_def)
next
  assume "ly < 1"
  then show "\<exists>errs. depreciation_calc an cb pis ly = Inl (ValidationError errs) \<and>
              (''life_years'', ''greater_than_equal'') \<in> set errs"
    using depreciation_calc_rejects[of cb ly an pis] by (simp add: check_range_int_def)
next
  assume "40 < ly"
  then show "\<exists>errs. depreciation_calc an cb pis ly = Inl (ValidationError errs) \<and>
              (''life_years'', ''less_than_equal'') \<in> set errs"
    using depreciation_calc_rejects[of cb ly an pis] by (simp add: check_range_int_def)
next
  fix plan
  assume "\<not> fge t (Fin 0)"
  then show "harvest_scan parse pn ps (Some t) \<noteq> Inr plan"
    using scan_Inr_D(2)[of parse "\<lparr>portfolio_name = pn, positions = ps, threshold = t\<rparr>" plan]
    by (auto simp: harvest_scan_eq)
next
  assume "\<not> fge t (Fin 0)" "list_all (convertible parse) ps"
  then show "harvest_scan parse pn ps (Some t) =
           Inl (ValidationError [(''threshold'', ''greater_than_equal'')])"
    by (simp add: harvest_scan_eq scan_tax_loss_harvest_def scan_loop_ok make_HarvestPlan_bad)
qed

lemma validation_rejects_example:
  "\<not> fge (Fin (- 1)) (Fin 0) \<and> (0::int) < 1 \<and> (40::int) < 41 \<and>
   list_all (convertible (\<lambda>s. None)) [Map.empty] \<and>
   depreciation_calc ''van'' (Fin (- 1)) (Date 2024 1 1) 0 =
     Inl (ValidationError [(''cost_basis'', ''greater_than_equal''),
                           (''life_years'', ''greater_than_equal'')]) \<and>
   depreciation_calc ''van'' (Fin (- 1)) (Date 2024 1 1) 41 =
     Inl (ValidationError [(''cost_basis'', ''greater_than_equal''),
                           (''life_years'', ''less_than_equal'')]) \<and>
   harvest_scan (\<lambda>s. None) ''main'' [Map.empty] (Some (Fin (- 1))) =
     Inl (ValidationError [(''threshold'', ''greater_than_equal'')])"
proof -
  have c: "list_all (convertible (\<lambda>s. None)) [Map.empty]"
    by (simp add: convertible_def unrealized_empty)
  have n: "\<not> fge (Fin (- 1)) (Fin 0)" by simp
  have h: "harvest_scan (\<lambda>s. None) ''main'' [Map.empty] (Some (Fin (- 1))) =
     Inl (ValidationError [(''threshold'', ''greater_than_equal'')])"
    using validation_rejects[of "Fin (- 1)" "''van''" "Date 2024 1 1" 0 "Fin (- 1)"
        "\<lambda>s. None" "''main''" "[Map.empty]"] c n by blast
  have d0: "depreciation_calc ''van'' (Fin (- 1)) (Date 2024 1 1) 0 =
     Inl (ValidationError [(''cost_basis'', ''greater_than_equal''),
                           (''life_years'', ''greater_than_equal'')])"
    by (simp add: depreciation_calc_def make_DepreciationInput_def validated_def
        check_ge_float_def check_range_int_def)
  have d41: "depreciation_calc ''van'' (Fin (- 1)) (Date 2024 1 1) 41 =
     Inl (ValidationError [(''cost_basis'', ''greater_than_equal''),
                           (''life_years'', ''less_than_equal'')])"
    by (simp add: depreciation_calc_def make_DepreciationInput_def validated_def
        check_ge_float_def check_range_int_def)
  show ?thesis using c n h d0 d41 by simp
qed

text \<open>
  C5. The validation layer is to reject a harvest-scan request that violates
  \<open>threshold \<ge> 0\<close> with a ValidationError naming the field. \<open>HarvestInput\<close> declares the
  threshold without the bound that \<open>HarvestPlan\<close> has and that \<open>DepreciationInput\<close> repeats
  for its record: a request with a threshold of -1 and a position whose \<open>cost_basis\<close> is
  null passes the input validation, and the handler then ends with the TypeError of the
  conversion in place of a ValidationError.
\<close>

theorem C5_threshold_unchecked_on_input:
  "\<not> fge (Fin (- 1)) (Fin 0) \<and>
   make_HarvestInput ''p'' [[''cost_basis'' \<mapsto> JNull]] (Some (Fin (- 1))) =
     Inr \<lparr>portfolio_name = ''p'', positions = [[''cost_basis'' \<mapsto> JNull]],
          threshold = Fin (- 1)\<rparr> \<and>
   harvest_scan (\<lambda>s. None) ''p'' [[''cost_basis'' \<mapsto> JNull]] (Some (Fin (- 1))) = Inl TypeError"
  by (simp add: harvest_scan_def make_HarvestInput_def validated_def scan_tax_loss_harvest_def
      position_unrealized_def dict_get_def)

section \<open>Rounding errors and the schedule total\<close>

lemma ulp_pos: "0 < ulp x"
  unfolding ulp_def by (rule powi2_pos)

lemma fl_unfold:
  "x \<noteq> 0 \<Longrightarrow>
   fl x = (let y = of_int (round_half_even (x / ulp x)) * ulp x
           in if 2 powi 1024 \<le> y then PInf
              else if y \<le> - (2 powi 1024) then NInf
              else Fin y)"
  unfolding fl_def ulp_def fexp_def Let_def by (simp only: if_False)

lemma fl_Fin_D:
  assumes "fl x = Fin y" "x \<noteq> 0"
  shows "y = of_int (round_half_even (x / ulp x)) * ulp x"
    and "y < 2 powi 1024" and "- (2 powi 1024) < y"
  using assms(1) unfolding fl_unfold[OF assms(2)] Let_def
  by (auto split: if_splits simp del: power_int_numeral)

lemma fl_err_ulp:
  assumes "fl x = Fin y" "x \<noteq> 0"
  shows "\<bar>y - x\<bar> \<le> ulp x / 2"
proof -
  let ?u = "ulp x"
  have u: "0 < ?u" by (rule ulp_pos)
  have y: "y = of_int (round_half_even (x / ?u)) * ?u" using fl_Fin_D(1)[OF assms] .
  have "y - x = (of_int (round_half_even (x / ?u)) - x / ?u) * ?u"
    using u by (simp add: y field_simps)
  then have "\<bar>y - x\<bar> = \<bar>of_int (round_half_even (x / ?u)) - x / ?u\<bar> * ?u"
    using u by (simp add: abs_mult)
  also have "\<dots> \<le> (1 / 2) * ?u"
    using rhe_err[of "x / ?u"] u by (intro mult_right_mono) simp_all
  finally show ?thesis by simp
qed

lemma ulp_half_le:
  assumes "x \<noteq> 0"
  shows "ulp x / 2 \<le> \<bar>x\<bar> / 2 ^ 53 + 1 / 2 ^ 1075"
proof (cases "- 1022 \<le> ilog2 \<bar>x\<bar>")
  case True
  have a0: "0 < \<bar>x\<bar>" using assms by simp
  have e: "fexp x = ilog2 \<bar>x\<bar>" using True by (simp add: fexp_def)
  have "ulp x = 2 powi (ilog2 \<bar>x\<bar> + (- 52))" by (simp add: ulp_def e)
  also have "\<dots> = 2 powi (ilog2 \<bar>x\<bar>) * 2 powi (- 52)" by (subst power_int_add) simp_all
  also have "\<dots> \<le> \<bar>x\<bar> * 2 powi (- 52)"
    using ilog2_bounds(1)[OF a0] by (intro mult_right_mono) (simp_all add: powi2_pos less_imp_le)
  finally have "ulp x \<le> \<bar>x\<bar> * 2 powi (- 52)" .
  moreover have "(2::rat) powi (- 52) = 1 / 2 ^ 52" by (simp add: power_int_def field_simps)
  ultimately have "ulp x \<le> \<bar>x\<bar> / 2 ^ 52" by simp
  then have "ulp x / 2 \<le> \<bar>x\<bar> / 2 ^ 53" by simp
  moreover have "(0::rat) \<le> 1 / 2 ^ 1075" by simp
  ultimately show ?thesis by linarith
next
  case False
  then have e: "fexp x = - 1022" by (simp add: fexp_def)
  have "ulp x = 2 powi (- 1074)" by (simp add: ulp_def e)
  also have "\<dots> = 1 / 2 ^ 1074" by (simp add: power_int_def field_simps)
  finally have "ulp x / 2 = 1 / 2 ^ 1075" by simp
  moreover have "0 \<le> \<bar>x\<bar> / 2 ^ 53" by simp
  ultimately show ?thesis by linarith
qed

lemma fl_err:
  assumes "fl x = Fin y"
  shows "\<bar>y - x\<bar> \<le> \<bar>x\<bar> / 2 ^ 53 + 1 / 2 ^ 1075"
proof (cases "x = 0")
  case True
  then show ?thesis using assms by (simp add: fl_def)
next
  case False
  show ?thesis using fl_err_ulp[OF assms False] ulp_half_le[OF False] by linarith
qed

lemma rhe_le: "x \<le> of_int N \<Longrightarrow> round_half_even x \<le> N"
proof -
  assume a: "x \<le> of_int N"
  have "of_int (round_half_even x) - x \<le> 1 / 2" using rhe_err[of x] by linarith
  then have "(of_int (round_half_even x) :: rat) < of_int (N + 1)" using a by simp
  then have "round_half_even x < N + 1" by (simp only: of_int_less_iff)
  then show ?thesis by simp
qed

lemma rhe_ge: "of_int N \<le> x \<Longrightarrow> N \<le> round_half_even x"
proof -
  assume a: "of_int N \<le> x"
  have "x - of_int (round_half_even x) \<le> 1 / 2" using rhe_err[of x] by linarith
  then have "(of_int (N - 1) :: rat) < of_int (round_half_even x)" using a by simp
  then have "N - 1 < round_half_even x" by (simp only: of_int_less_iff)
  then show ?thesis by simp
qed

lemma fexp_le:
  assumes "x \<noteq> 0" "\<bar>x\<bar> < 2 powi (b + 1)" "- 1022 \<le> b"
  shows "fexp x \<le> b"
proof -
  have a0: "0 < \<bar>x\<bar>" using assms(1) by simp
  have "(2::rat) powi (ilog2 \<bar>x\<bar>) < 2 powi (b + 1)"
    using ilog2_bounds(1)[OF a0] assms(2) by linarith
  then have "ilog2 \<bar>x\<bar> < b + 1" by (rule powi2_less_cancel)
  then show ?thesis using assms(3) by (simp add: fexp_def)
qed

lemma max_float_lt: "max_float < 2 powi 1024"
  by (simp add: max_float_def)

lemma fl_finite:
  assumes "\<bar>x\<bar> \<le> max_float"
  shows "\<exists>y. fl x = Fin y \<and> \<bar>y\<bar> \<le> max_float"
proof (cases "x = 0")
  case True
  then show ?thesis by (simp add: fl_def max_float_def)
next
  case False
  let ?u = "ulp x"
  have u: "0 < ?u" by (rule ulp_pos)
  have "\<bar>x\<bar> < 2 powi (1023 + 1)" using assms max_float_lt by simp
  then have e: "fexp x \<le> 1023" by (intro fexp_le[OF False]) simp_all
  define d where "d = nat (1023 - fexp x)"
  have d: "971 = (fexp x - 52) + int d" using e by (simp add: d_def)
  have "(2::rat) powi 971 = 2 powi ((fexp x - 52) + int d)" by (simp only: d[symmetric])
  also have "\<dots> = 2 powi (fexp x - 52) * 2 powi (int d)" by (subst power_int_add) simp_all
  finally have p971: "(2::rat) ^ 971 = ?u * 2 ^ d" by (simp add: ulp_def)
  define N :: int where "N = (2 ^ 53 - 1) * 2 ^ d"
  have "max_float = (2 ^ 53 - 1) * (2::rat) ^ 971" by (simp add: max_float_def)
  also have "\<dots> = (2 ^ 53 - 1) * (?u * 2 ^ d)" by (simp only: p971)
  finally have mf: "max_float = of_int N * ?u" by (simp add: N_def mult_ac)
  have xu: "\<bar>x / ?u\<bar> \<le> of_int N"
  proof -
    have "\<bar>x / ?u\<bar> = \<bar>x\<bar> / ?u" using u by (simp add: abs_divide)
    also have "\<dots> \<le> max_float / ?u" using assms u by (simp add: divide_right_mono)
    also have "\<dots> = of_int N" using u by (simp add: mf)
    finally show ?thesis .
  qed
  let ?m = "round_half_even (x / ?u)"
  have hi: "x / ?u \<le> of_int N" using xu by linarith
  have "- of_int N \<le> x / ?u" using xu by linarith
  then have lo: "of_int (- N) \<le> x / ?u" by simp
  have "?m \<le> N" "- N \<le> ?m" using rhe_le[OF hi] rhe_ge[OF lo] by blast+
  then have "\<bar>?m\<bar> \<le> N" by simp
  then have "(of_int \<bar>?m\<bar> :: rat) \<le> of_int N" by (simp only: of_int_le_iff)
  then have "\<bar>of_int ?m :: rat\<bar> * ?u \<le> of_int N * ?u"
    using u by (intro mult_right_mono) simp_all
  then have yb: "\<bar>of_int ?m * ?u\<bar> \<le> max_float"
    using u by (simp add: abs_mult mf)
  then have "\<bar>of_int ?m * ?u\<bar> < 2 powi 1024" using max_float_lt by linarith
  then have "\<not> 2 powi 1024 \<le> of_int ?m * ?u" "\<not> of_int ?m * ?u \<le> - (2 powi 1024)"
    by linarith+
  then have "fl x = Fin (of_int ?m * ?u)"
    unfolding fl_unfold[OF False] Let_def by (simp only: if_False)
  then show ?thesis using yb by blast
qed

lemma fl_int_or_small:
  assumes "fl x = Fin y"
  shows "(\<exists>n. y = of_int n) \<or> \<bar>y\<bar> \<le> 2 ^ 53"
proof (cases "x = 0")
  case True
  then show ?thesis using assms by (simp add: fl_def)
next
  case False
  let ?u = "ulp x"
  let ?m = "round_half_even (x / ?u)"
  have y: "y = of_int ?m * ?u" using fl_Fin_D(1)[OF assms False] .
  show ?thesis
  proof (cases "52 \<le> fexp x")
    case True
    have "?u = 2 ^ nat (fexp x - 52)" using True by (simp add: ulp_def power_int_def)
    then have "y = of_int (?m * 2 ^ nat (fexp x - 52))" using y by simp
    then show ?thesis by blast
  next
    case f: False
    have a0: "0 < \<bar>x\<bar>" using False by simp
    have "ilog2 \<bar>x\<bar> + 1 \<le> 52" using f by (simp add: fexp_def)
    then have "(2::rat) powi (ilog2 \<bar>x\<bar> + 1) \<le> 2 powi 52" by (rule powi2_mono)
    then have xb: "\<bar>x\<bar> < 2 ^ 52" using ilog2_bounds(2)[OF a0] by simp
    have "fexp x - 52 \<le> 0" using f by simp
    then have "?u \<le> 2 powi 0" unfolding ulp_def by (rule powi2_mono)
    then have ub: "?u \<le> 1" by simp
    have "\<bar>y - x\<bar> \<le> ?u / 2" using fl_err_ulp[OF assms False] .
    then have "\<bar>y\<bar> \<le> 2 ^ 52 + 1" using xb ub by linarith
    then show ?thesis by simp
  qed
qed

lemma max_float_ge: "2 ^ 53 + 1 \<le> max_float"
  by (simp add: max_float_def)

lemma round2_finite:
  assumes "fl x = Fin q" "\<bar>q\<bar> \<le> max_float"
  shows "\<exists>a. round2 (Fin q) = Fin a \<and> \<bar>a\<bar> \<le> max_float \<and>
             \<bar>a - q\<bar> \<le> 1 / 200 + (\<bar>q\<bar> + 1 / 200) / 2 ^ 53 + 1 / 2 ^ 1075"
proof -
  let ?r = "of_int (round_half_even (q * 100)) / 100 :: rat"
  have "\<bar>of_int (round_half_even (q * 100)) - q * 100\<bar> \<le> 1 / 2" by (rule rhe_err)
  then have rq: "\<bar>?r - q\<bar> \<le> 1 / 200" by (simp add: abs_le_iff field_simps)
  have rb: "\<bar>?r\<bar> \<le> max_float"
  proof -
    from fl_int_or_small[OF assms(1)] show ?thesis
    proof
      assume "\<exists>n. q = of_int n"
      then obtain n where n: "q = of_int n" by blast
      have "q * 100 = of_int (n * 100)" by (simp add: n)
      then have "round_half_even (q * 100) = n * 100" by (simp only: rhe_of_int)
      then have "?r = q" by (simp add: n)
      then show ?thesis using assms(2) by simp
    next
      assume "\<bar>q\<bar> \<le> 2 ^ 53"
      then have "\<bar>?r\<bar> \<le> 2 ^ 53 + 1" using rq by linarith
      then show ?thesis using max_float_ge by linarith
    qed
  qed
  obtain a where a: "fl ?r = Fin a" "\<bar>a\<bar> \<le> max_float" using fl_finite[OF rb] by blast
  have "\<bar>a - ?r\<bar> \<le> \<bar>?r\<bar> / 2 ^ 53 + 1 / 2 ^ 1075" using fl_err[OF a(1)] .
  moreover have "\<bar>?r\<bar> \<le> \<bar>q\<bar> + 1 / 200" using rq by linarith
  then have "\<bar>?r\<bar> / 2 ^ 53 \<le> (\<bar>q\<bar> + 1 / 200) / 2 ^ 53" by (simp add: divide_right_mono)
  ultimately have "\<bar>a - q\<bar> \<le> 1 / 200 + (\<bar>q\<bar> + 1 / 200) / 2 ^ 53 + 1 / 2 ^ 1075"
    using rq by linarith
  then show ?thesis using a by simp
qed

lemma bound_arith:
  fixes x0 q a :: rat
  assumes "0 \<le> x0"
    and "\<bar>q - x0\<bar> \<le> x0 / 2 ^ 53 + 1 / 2 ^ 1075"
    and "\<bar>a - q\<bar> \<le> 1 / 200 + (\<bar>q\<bar> + 1 / 200) / 2 ^ 53 + 1 / 2 ^ 1075"
  shows "\<bar>a - x0\<bar> \<le> 1 / 200 + (x0 + 1) / 2 ^ 51"
proof -
  have e: "(1::rat) / 2 ^ 1075 \<le> 1 / 2 ^ 60"
    by (intro divide_left_mono power_increasing) simp_all
  define h :: rat where "h = 1 / 2 ^ 1075"
  have h60: "h \<le> 1 / 1152921504606846976" using e by (simp add: h_def)
  have h0: "0 \<le> h" by (simp add: h_def)
  have 1: "\<bar>q - x0\<bar> \<le> x0 / 9007199254740992 + h" using assms(2) by (simp add: h_def)
  have 2: "\<bar>a - q\<bar> \<le> 1 / 200 + (\<bar>q\<bar> + 1 / 200) / 9007199254740992 + h"
    using assms(3) by (simp add: h_def)
  have q1: "\<bar>q\<bar> \<le> x0 + x0 / 9007199254740992 + h" using 1 assms(1) by linarith
  have "\<bar>q\<bar> / 9007199254740992 \<le> (x0 + x0 / 9007199254740992 + h) / 9007199254740992"
    using q1 by (rule divide_right_mono) simp
  then have q2: "\<bar>q\<bar> / 9007199254740992 \<le>
      x0 / 9007199254740992 + x0 / 81129638414606681695789005144064 + h / 9007199254740992"
    by (simp add: add_divide_distrib)
  have "x0 / 81129638414606681695789005144064 \<le> x0 / 9007199254740992"
    using assms(1) by (intro divide_left_mono) simp_all
  then have q3: "\<bar>q\<bar> / 9007199254740992 \<le> 2 * (x0 / 9007199254740992) + h / 9007199254740992"
    using q2 by linarith
  have 4: "\<bar>a - q\<bar> \<le> 1 / 200 + \<bar>q\<bar> / 9007199254740992 + 1 / 1801439850948198400 + h"
    using 2 by (simp add: add_divide_distrib)
  have h5: "h / 9007199254740992 \<le> h" using h0 by (simp add: field_simps)
  have "\<bar>a - x0\<bar> \<le> \<bar>a - q\<bar> + \<bar>q - x0\<bar>" by linarith
  then have "\<bar>a - x0\<bar> \<le> 1 / 200 + 3 * (x0 / 9007199254740992) + 1 / 1801439850948198400 + 3 * h"
    using 1 4 q3 h5 by linarith
  moreover have "3 * (x0 / 9007199254740992) \<le> x0 / 2251799813685248"
    using assms(1) by (simp add: field_simps)
  moreover have "1 / 1801439850948198400 + 3 * h \<le> 1 / 2251799813685248"
    using h60 by linarith
  ultimately have "\<bar>a - x0\<bar> \<le> 1 / 200 + x0 / 2251799813685248 + 1 / 2251799813685248"
    by linarith
  then have "\<bar>a - x0\<bar> \<le> 1 / 200 + (x0 + 1) / 2251799813685248"
    by (simp add: add_divide_distrib)
  then show ?thesis by simp
qed

lemma ilog2_unique:
  assumes "2 powi e \<le> a" "a < 2 powi (e + 1)"
  shows "ilog2 a = e"
proof -
  have a0: "0 < a" using assms(1) powi2_pos[of e] by linarith
  have "(2::rat) powi (ilog2 a) < 2 powi (e + 1)" using ilog2_bounds(1)[OF a0] assms(2) by linarith
  then have 1: "ilog2 a < e + 1" by (rule powi2_less_cancel)
  have "(2::rat) powi e < 2 powi (ilog2 a + 1)" using ilog2_bounds(2)[OF a0] assms(1) by linarith
  then have 2: "e < ilog2 a + 1" by (rule powi2_less_cancel)
  show ?thesis using 1 2 by simp
qed

lemma fl_eval:
  assumes "2 powi e \<le> \<bar>x\<bar>" "\<bar>x\<bar> < 2 powi (e + 1)" "- 1022 \<le> e"
    and "\<bar>x / 2 powi (e - 52) - of_int n\<bar> < 1 / 2"
    and "\<bar>of_int n * (2::rat) powi (e - 52)\<bar> < 2 powi 1024"
  shows "fl x = Fin (of_int n * 2 powi (e - 52))"
proof -
  have "0 < \<bar>x\<bar>" using assms(1) powi2_pos[of e] by linarith
  then have x0: "x \<noteq> 0" by simp
  have "fexp x = e" using ilog2_unique[OF assms(1,2)] assms(3) by (simp add: fexp_def)
  then have u: "ulp x = 2 powi (e - 52)" by (simp add: ulp_def)
  have r: "round_half_even (x / 2 powi (e - 52)) = n" using assms(4) by (rule rhe_near)
  have "\<not> (2::rat) powi 1024 \<le> of_int n * 2 powi (e - 52)"
    "\<not> of_int n * 2 powi (e - 52) \<le> - ((2::rat) powi 1024)"
    using assms(5) by linarith+
  then show ?thesis
    unfolding fl_unfold[OF x0] Let_def u r by (simp only: if_False)
qed

lemma depreciation_amounts:
  assumes "fge C (Fin 0)" "1 \<le> L" "L \<le> 40"
  shows "\<exists>r q. depreciation_calc an C pis L = Inr r \<and> fdiv C (Fin (of_int L)) = Inr q \<and>
           map amount (schedule r) = replicate (nat L) (round2 q)"
proof -
  obtain q where q: "fdiv C (Fin (of_int L)) = Inr q"
    and r: "depreciation_calc an C pis L =
             Inr \<lparr>rec_asset_name = an, rec_cost_basis = C, rec_placed_in_service = pis,
                  rec_method = ''SL'', rec_life_years = L,
                  schedule = map (\<lambda>y. \<lparr>year = y, amount = round2 q\<rparr>) [1..L]\<rparr>"
    using calculate_depreciation_valid[OF assms, of an pis] by blast
  have "map amount (map (\<lambda>y. \<lparr>year = y, amount = round2 q\<rparr>) [1..L]) = replicate (nat L) (round2 q)"
    by (simp add: comp_def map_replicate_const)
  then show ?thesis using q r by simp
qed

lemma fl_2_60_3: "fl (1152921504606846976 / 3) = Fin 384307168202282304"
proof -
  have "fl (1152921504606846976 / 3) = Fin (of_int 6004799503160661 * 2 powi (58 - 52))"
    by (rule fl_eval) simp_all
  then show ?thesis by simp
qed

lemma fl_big_q: "fl 384307168202282304 = Fin 384307168202282304"
proof -
  have "fl 384307168202282304 = Fin (of_int 6004799503160661 * 2 powi (58 - 52))"
    by (rule fl_eval) simp_all
  then show ?thesis by simp
qed

lemma round2_big_q: "round2 (Fin 384307168202282304) = Fin 384307168202282304"
proof -
  have "round_half_even (384307168202282304 * 100) = 38430716820228230400"
    by (rule rhe_near) simp
  then show ?thesis by (simp add: fl_big_q)
qed

text \<open>
  C7, as the specification states it: the schedule total differs from the cost basis by
  at most \<open>L\<close> half-cents. The amounts are floats: for a cost basis of \<open>2^60\<close> over 3 years
  the quotient is rounded to the float 384307168202282304, each amount is that float, and
  the total misses the cost basis by 64.
\<close>

theorem C7_half_cent_bound_counterexample:
  "depreciation_calc ''plant'' (Fin 1152921504606846976) (Date 2024 1 1) 3 =
     Inr \<lparr>rec_asset_name = ''plant'', rec_cost_basis = Fin 1152921504606846976,
          rec_placed_in_service = Date 2024 1 1, rec_method = ''SL'', rec_life_years = 3,
          schedule = [\<lparr>year = 1, amount = Fin 384307168202282304\<rparr>,
                      \<lparr>year = 2, amount = Fin 384307168202282304\<rparr>,
                      \<lparr>year = 3, amount = Fin 384307168202282304\<rparr>]\<rparr> \<and>
   \<not> \<bar>3 * 384307168202282304 - 1152921504606846976 :: rat\<bar> \<le> 3 * (5 / 1000)"
proof -
  have u: "[1..3::int] = [1, 2, 3]" by (simp add: upto_rec1)
  obtain q where q: "fdiv (Fin 1152921504606846976) (Fin (of_int 3)) = Inr q"
    and r: "depreciation_calc ''plant'' (Fin 1152921504606846976) (Date 2024 1 1) 3 =
             Inr \<lparr>rec_asset_name = ''plant'', rec_cost_basis = Fin 1152921504606846976,
                  rec_placed_in_service = Date 2024 1 1,
                  rec_method = ''SL'', rec_life_years = 3,
                  schedule = map (\<lambda>y. \<lparr>year = y, amount = round2 q\<rparr>) [1..3]\<rparr>"
    using calculate_depreciation_valid[of "Fin 1152921504606846976" 3 "''plant''" "Date 2024 1 1"]
    by auto
  have "q = Fin 384307168202282304" using q by (simp add: fl_2_60_3)
  then have "round2 q = Fin 384307168202282304" by (simp only: round2_big_q)
  then show ?thesis using r u by simp
qed

lemma depreciation_total_bound:
  assumes "0 \<le> c" "c \<le> max_float" "1 \<le> L" "L \<le> 40"
  shows "\<exists>r a. depreciation_calc an (Fin c) pis L = Inr r \<and>
           map amount (schedule r) = replicate (nat L) (Fin a) \<and>
           \<bar>of_int L * a - c\<bar> \<le> of_int L * (5 / 1000) + (c + of_int L) / 2 ^ 51"
proof -
  let ?l = "of_int L :: rat"
  let ?x = "c / ?l"
  have l1: "1 \<le> ?l" using assms(3) by simp
  have l0: "0 < ?l" using l1 by linarith
  have x0: "0 \<le> ?x" using assms(1) l0 by simp
  have "?x \<le> c / 1" using assms(1) l1 by (intro divide_left_mono) simp_all
  then have xb: "\<bar>?x\<bar> \<le> max_float" using x0 assms(2) by simp
  obtain q where q: "fl ?x = Fin q" "\<bar>q\<bar> \<le> max_float" using fl_finite[OF xb] by blast
  have e1: "\<bar>q - ?x\<bar> \<le> ?x / 2 ^ 53 + 1 / 2 ^ 1075" using fl_err[OF q(1)] x0 by simp
  obtain a where a: "round2 (Fin q) = Fin a"
    and e2: "\<bar>a - q\<bar> \<le> 1 / 200 + (\<bar>q\<bar> + 1 / 200) / 2 ^ 53 + 1 / 2 ^ 1075"
    using round2_finite[OF q] by blast
  have b: "\<bar>a - ?x\<bar> \<le> 1 / 200 + (?x + 1) / 2 ^ 51" using bound_arith[OF x0 e1 e2] .
  have "of_int L * a - c = ?l * (a - ?x)" using l0 by (simp add: field_simps)
  then have "\<bar>of_int L * a - c\<bar> = ?l * \<bar>a - ?x\<bar>" using l0 by (simp add: abs_mult)
  also have "\<dots> \<le> ?l * (1 / 200 + (?x + 1) / 2 ^ 51)"
    using b l0 by (intro mult_left_mono) simp_all
  also have "\<dots> = ?l * (5 / 1000) + (c + ?l) / 2 ^ 51"
    using l0 by (simp add: field_simps)
  finally have bound: "\<bar>of_int L * a - c\<bar> \<le> ?l * (5 / 1000) + (c + ?l) / 2 ^ 51" .
  have ge: "fge (Fin c) (Fin 0)" using assms(1) by simp
  obtain r q' where r: "depreciation_calc an (Fin c) pis L = Inr r"
    and q': "fdiv (Fin c) (Fin (of_int L)) = Inr q'"
    and m: "map amount (schedule r) = replicate (nat L) (round2 q')"
    using depreciation_amounts[OF ge assms(3,4), of an pis] by blast
  have "q' = Fin q" using q' q(1) l0 by simp
  then have "map amount (schedule r) = replicate (nat L) (Fin a)" using m a by simp
  then show ?thesis using r bound by blast
qed

lemma depreciation_zero:
  assumes "1 \<le> L" "L \<le> 40"
  shows "\<exists>r. depreciation_calc an (Fin 0) pis L = Inr r \<and>
           map amount (schedule r) = replicate (nat L) (Fin 0)"
proof -
  have ge: "fge (Fin 0) (Fin 0)" by simp
  obtain r q' where r: "depreciation_calc an (Fin 0) pis L = Inr r"
    and q': "fdiv (Fin 0) (Fin (of_int L)) = Inr q'"
    and m: "map amount (schedule r) = replicate (nat L) (round2 q')"
    using depreciation_amounts[OF ge assms, of an pis] by blast
  have "q' = Fin 0" using q' assms(1) by (simp add: fl_0)
  then show ?thesis using r m by (simp add: round2_0 del: round2.simps)
qed

lemma depreciation_100_3:
  "\<exists>r a. depreciation_calc an (Fin 100) pis 3 = Inr r \<and>
         map amount (schedule r) = replicate 3 (Fin a) \<and> 3 * a \<noteq> 100"
proof -
  have mf: "(2 ^ 53 + 1 :: rat) \<le> max_float" by (rule max_float_ge)
  have "\<bar>100 / 3 :: rat\<bar> \<le> max_float" using mf by simp
  then obtain q where q: "fl (100 / 3) = Fin q" using fl_finite by blast
  have "\<bar>q - 100 / 3\<bar> \<le> \<bar>100 / 3\<bar> / 2 ^ 53 + 1 / 2 ^ 1075" by (rule fl_err[OF q])
  moreover have "(1::rat) / 2 ^ 1075 \<le> 1 / 2 ^ 60"
    by (intro divide_left_mono power_increasing) simp_all
  ultimately have "\<bar>q - 100 / 3\<bar> \<le> 1 / 1000" by simp
  then have "\<bar>q * 100 - 3333\<bar> < 1 / 2" by linarith
  then have "\<bar>q * 100 - of_int 3333\<bar> < 1 / 2" by simp
  then have "round_half_even (q * 100) = 3333" by (rule rhe_near)
  then have r2: "round2 (Fin q) = fl (3333 / 100)" by simp
  have "\<bar>3333 / 100 :: rat\<bar> \<le> max_float" using mf by simp
  then obtain a where a: "fl (3333 / 100) = Fin a" using fl_finite by blast
  have "\<bar>a - 3333 / 100\<bar> \<le> \<bar>3333 / 100\<bar> / 2 ^ 53 + 1 / 2 ^ 1075" by (rule fl_err[OF a])
  moreover have "(1::rat) / 2 ^ 1075 \<le> 1 / 2 ^ 60"
    by (intro divide_left_mono power_increasing) simp_all
  ultimately have "\<bar>a - 3333 / 100\<bar> \<le> 1 / 1000" by simp
  then have ne: "3 * a \<noteq> 100" by linarith
  have ge: "fge (Fin 100) (Fin 0)" by simp
  obtain r q' where r: "depreciation_calc an (Fin 100) pis 3 = Inr r"
    and q': "fdiv (Fin 100) (Fin (of_int 3)) = Inr q'"
    and m: "map amount (schedule r) = replicate (nat 3) (round2 q')"
    using depreciation_amounts[OF ge, of 3 an pis] by auto
  have "q' = Fin q" using q' q by simp
  then have "map amount (schedule r) = replicate 3 (Fin a)" using m r2 a by simp
  then show ?thesis using r ne by blast
qed

text \<open>
  C7, amended: for every valid depreciation input whose cost basis \<open>C \<ge> 0\<close> is a finite
  float, every amount is one finite float \<open>a\<close> and the schedule total \<open>L * a\<close> differs from
  \<open>C\<close> by at most \<open>L\<close> half-cents plus the error of the two float roundings:
  \<open>|L * a - C| \<le> L * 0.005 + (C + L) / 2^51\<close>. Exact equality is not guaranteed (100 over
  3 years). For \<open>C = 0\<close> every entry is 0.00, and the total is 0.
\<close>

theorem C7_schedule_total_bound:
  "(0 \<le> c \<and> c \<le> max_float \<and> 1 \<le> L \<and> L \<le> 40 \<longrightarrow>
      (\<exists>r a. depreciation_calc an (Fin c) pis L = Inr r \<and>
             map amount (schedule r) = replicate (nat L) (Fin a) \<and>
             \<bar>of_int L * a - c\<bar> \<le> of_int L * (5 / 1000) + (c + of_int L) / 2 ^ 51)) \<and>
   (1 \<le> L \<and> L \<le> 40 \<longrightarrow>
      (\<exists>r. depreciation_calc an (Fin 0) pis L = Inr r \<and>
           map amount (schedule r) = replicate (nat L) (Fin 0))) \<and>
   (\<exists>r a. depreciation_calc an (Fin 100) pis 3 = Inr r \<and>
          map amount (schedule r) = replicate 3 (Fin a) \<and> 3 * a \<noteq> 100)"
  using depreciation_total_bound[of c L an pis] depreciation_zero[of L an pis]
    depreciation_100_3[of an pis]
  by blast

theorem C7_schedule_total_bound_witness:
  "(0::rat) \<le> 12000 \<and> 12000 \<le> max_float \<and> (1::int) \<le> 5 \<and> (5::int) \<le> 40 \<and>
   (\<exists>r a. depreciation_calc ''van'' (Fin 12000) (Date 2024 1 1) 5 = Inr r \<and>
          map amount (schedule r) = [Fin a, Fin a, Fin a, Fin a, Fin a] \<and>
          \<bar>5 * a - 12000\<bar> \<le> 5 * (5 / 1000) + (12000 + 5) / 2 ^ 51) \<and>
   (\<exists>r. depreciation_calc ''van'' (Fin 0) (Date 2024 1 1) 5 = Inr r \<and>
        map amount (schedule r) = [Fin 0, Fin 0, Fin 0, Fin 0, Fin 0])"
proof -
  have m: "(12000::rat) \<le> max_float" using max_float_ge by simp
  have n: "replicate (nat 5) x = [x, x, x, x, x]" for x :: pyfloat
    by (simp add: numeral_eq_Suc)
  have "\<exists>r a. depreciation_calc ''van'' (Fin 12000) (Date 2024 1 1) 5 = Inr r \<and>
          map amount (schedule r) = replicate (nat 5) (Fin a) \<and>
          \<bar>of_int 5 * a - 12000\<bar> \<le> of_int 5 * (5 / 1000) + (12000 + of_int 5) / 2 ^ 51"
    using C7_schedule_total_bound[of 12000 5 "''van''" "Date 2024 1 1"] m by simp
  then have a: "\<exists>r a. depreciation_calc ''van'' (Fin 12000) (Date 2024 1 1) 5 = Inr r \<and>
          map amount (schedule r) = [Fin a, Fin a, Fin a, Fin a, Fin a] \<and>
          \<bar>5 * a - 12000\<bar> \<le> 5 * (5 / 1000) + (12000 + 5) / 2 ^ 51"
    by (simp only: n of_int_numeral)
  have "\<exists>r. depreciation_calc ''van'' (Fin 0) (Date 2024 1 1) 5 = Inr r \<and>
        map amount (schedule r) = replicate (nat 5) (Fin 0)"
    using C7_schedule_total_bound[of 12000 5 "''van''" "Date 2024 1 1"] by simp
  then have b: "\<exists>r. depreciation_calc ''van'' (Fin 0) (Date 2024 1 1) 5 = Inr r \<and>
        map amount (schedule r) = [Fin 0, Fin 0, Fin 0, Fin 0, Fin 0]"
    by (simp only: n)
  show ?thesis using m a b by simp
qed

end
